theory Spec2Isabelle
  imports Complex_Main "HOL-Library.Word"
begin

unbundle bit_operations_syntax

section \<open>Data model\<close>

text \<open>
  The C types of \<^verbatim>\<open>loragw_usb.c\<close> and \<^verbatim>\<open>loragw_stts751.c\<close>.
  \<^verbatim>\<open>uint8_t\<close> and \<^verbatim>\<open>uint16_t\<close> are words, so that the assignment
  \<^verbatim>\<open>uint16_t command_size = size + 4\<close> wraps as in C. Return codes and file
  descriptors are C \<^verbatim>\<open>int\<close>s that the code only compares and ORs; they are
  \<open>int\<close>. An expression over \<^verbatim>\<open>uint16_t\<close> is computed in \<^verbatim>\<open>int\<close>
  after integer promotion: a \<open>32 word\<close>, truncated by \<open>ucast\<close> when it is stored in a
  \<^verbatim>\<open>uint8_t\<close>.
\<close>

type_synonym uint8_t = "8 word"
type_synonym uint16_t = "16 word"
type_synonym tcflag_t = "32 word"

text \<open>
  The headers \<^verbatim>\<open>loragw_usb.h\<close>, \<^verbatim>\<open>loragw_i2c.h\<close> and
  \<^verbatim>\<open>loragw_mcu.h\<close> are not among the sources: the return codes they define, the
  expected version string and \<^verbatim>\<open>sizeof mcu_version_string\<close> are parameters of the
  model.
\<close>

record hal =
  LGW_USB_SUCCESS :: int
  LGW_USB_ERROR :: int
  LGW_I2C_SUCCESS :: int
  mcu_version_string :: string
  sizeof_mcu_version_string :: nat

text \<open>
  \<^verbatim>\<open>struct termios\<close> as glibc declares it on Linux. The array \<^verbatim>\<open>c_cc\<close> is a
  function of the index.
\<close>

record termios =
  c_iflag :: tcflag_t
  c_oflag :: tcflag_t
  c_cflag :: tcflag_t
  c_lflag :: tcflag_t
  c_line :: uint8_t
  c_cc :: "nat \<Rightarrow> uint8_t"
  c_ispeed :: "32 word"
  c_ospeed :: "32 word"

text \<open>The constants of \<^verbatim>\<open>termios.h\<close> that the code names, with their Linux values.\<close>

definition VTIME :: nat where "VTIME = 5"
definition VMIN :: nat where "VMIN = 6"
definition IGNBRK :: tcflag_t where "IGNBRK = 0x1"
definition ICRNL :: tcflag_t where "ICRNL = 0x100"
definition IXON :: tcflag_t where "IXON = 0x400"
definition IXANY :: tcflag_t where "IXANY = 0x800"
definition IXOFF :: tcflag_t where "IXOFF = 0x1000"
definition CSIZE :: tcflag_t where "CSIZE = 0x30"
definition CS8 :: tcflag_t where "CS8 = 0x30"
definition CSTOPB :: tcflag_t where "CSTOPB = 0x40"
definition CREAD :: tcflag_t where "CREAD = 0x80"
definition PARENB :: tcflag_t where "PARENB = 0x100"
definition CLOCAL :: tcflag_t where "CLOCAL = 0x800"
definition B115200 :: "32 word" where "B115200 = 0x1002"

text \<open>
  Where C leaves the behaviour undefined (a read through a dangling pointer or of an
  unwritten cell, an access past the end of an array), the model stops with a fault
  instead of a result.
\<close>

datatype fault = Invalid_pointer | Uninitialized_read | Out_of_bounds

text \<open>The calls made to the MCU (\<^verbatim>\<open>loragw_mcu.h\<close>), in the order they are made.\<close>

datatype mcu_call =
  Ping int
  | Gpio_write int nat nat nat
  | Spi_access int "uint8_t list"

text \<open>
  The state the two files act on: the heap cells obtained from \<^verbatim>\<open>malloc\<close> (a cell
  holds \<open>None\<close> until it is written), the open file descriptors, the terminal attributes
  behind a descriptor, the request buffer \<^verbatim>\<open>buf_req\<close> that the burst operations
  fill (declared outside these sources: its capacity is the length of the list), the
  seed given to \<^verbatim>\<open>srand\<close>, and the log of MCU calls.
\<close>

record world =
  heap :: "nat \<rightharpoonup> int option"
  fds :: "int set"
  ttys :: "int \<rightharpoonup> termios"
  buf_req :: "uint8_t list"
  rand_seed :: "nat option"
  mcu_log :: "mcu_call list"

text \<open>
  The outcomes of the calls into the C library, the operating system and the MCU layer.
  \<open>mcu_spi_access\<close> answers a request frame with its return code and the contents of the
  reply buffer \<^verbatim>\<open>in_buf\<close> after the call, a function of the index.
\<close>

record env =
  malloc_result :: "nat option"
  os_open :: "string \<Rightarrow> int"
  os_close :: "int \<Rightarrow> int"
  cfsetospeed :: "termios \<Rightarrow> 32 word \<Rightarrow> termios"
  cfsetispeed :: "termios \<Rightarrow> 32 word \<Rightarrow> termios"
  tcsetattr_result :: "int \<Rightarrow> termios \<Rightarrow> int"
  mcu_ping :: "int \<Rightarrow> int \<times> string"
  mcu_gpio_write :: "int \<Rightarrow> nat \<Rightarrow> nat \<Rightarrow> nat \<Rightarrow> int"
  mcu_spi_access :: "int \<Rightarrow> uint8_t list \<Rightarrow> int \<times> (nat \<Rightarrow> uint8_t)"

section \<open>Library and system calls\<close>

text \<open>\<^verbatim>\<open>free(p)\<close> and a store through an \<^verbatim>\<open>int *\<close>.\<close>

definition free :: "nat \<Rightarrow> world \<Rightarrow> world" where
  "free p w = w\<lparr>heap := (heap w)(p := None)\<rparr>"

definition store_int :: "nat \<Rightarrow> int \<Rightarrow> world \<Rightarrow> world" where
  "store_int p v w = w\<lparr>heap := (heap w)(p \<mapsto> Some v)\<rparr>"

text \<open>\<^verbatim>\<open>*(int *)com_target\<close>: undefined on a dangling pointer or an unwritten cell.\<close>

definition load_int :: "world \<Rightarrow> nat \<Rightarrow> fault + int" where
  "load_int w p =
     (case heap w p of
        None \<Rightarrow> Inl Invalid_pointer
      | Some None \<Rightarrow> Inl Uninitialized_read
      | Some (Some v) \<Rightarrow> Inr v)"

text \<open>
  \<^verbatim>\<open>tcgetattr\<close> fails on a descriptor with no terminal behind it and leaves the
  structure as it was; \<^verbatim>\<open>tcsetattr\<close> installs the attributes when it returns 0.
\<close>

definition tcgetattr :: "world \<Rightarrow> int \<Rightarrow> termios \<Rightarrow> int \<times> termios" where
  "tcgetattr w fd tty = (case ttys w fd of None \<Rightarrow> (-1, tty) | Some t \<Rightarrow> (0, t))"

definition tcsetattr :: "env \<Rightarrow> world \<Rightarrow> int \<Rightarrow> termios \<Rightarrow> int \<times> world" where
  "tcsetattr e w fd tty =
     (let rc = tcsetattr_result e fd tty
      in (rc, if rc = 0 then w\<lparr>ttys := (ttys w)(fd \<mapsto> tty)\<rparr> else w))"

text \<open>\<^verbatim>\<open>memset(&tty, 0, sizeof tty)\<close>.\<close>

definition termios_zero :: termios where
  "termios_zero =
     \<lparr>c_iflag = 0, c_oflag = 0, c_cflag = 0, c_lflag = 0, c_line = 0,
      c_cc = (\<lambda>_. 0), c_ispeed = 0, c_ospeed = 0\<rparr>"

text \<open>
  \<^verbatim>\<open>strncmp\<close> on C strings: a string is the list of its characters, and the end of the
  list reads as the terminating NUL. The comparison is on unsigned characters.
\<close>

definition c_char_at :: "string \<Rightarrow> int" where
  "c_char_at s = (case s of [] \<Rightarrow> 0 | c # _ \<Rightarrow> of_char c)"

fun strncmp :: "string \<Rightarrow> string \<Rightarrow> nat \<Rightarrow> int" where
  "strncmp s1 s2 0 = 0"
| "strncmp s1 s2 (Suc n) =
     (if c_char_at s1 \<noteq> c_char_at s2 then c_char_at s1 - c_char_at s2
      else if c_char_at s1 = 0 then 0
      else strncmp (tl s1) (tl s2) n)"

text \<open>The calls to the MCU layer, logged.\<close>

definition ping :: "env \<Rightarrow> world \<Rightarrow> int \<Rightarrow> int \<times> string \<times> world" where
  "ping e w fd =
     (fst (mcu_ping e fd), snd (mcu_ping e fd), w\<lparr>mcu_log := mcu_log w @ [Ping fd]\<rparr>)"

definition gpio_write :: "env \<Rightarrow> world \<Rightarrow> int \<Rightarrow> nat \<Rightarrow> nat \<Rightarrow> nat \<Rightarrow> int \<times> world" where
  "gpio_write e w fd bank pin level =
     (mcu_gpio_write e fd bank pin level,
      w\<lparr>mcu_log := mcu_log w @ [Gpio_write fd bank pin level]\<rparr>)"

text \<open>
  \<^verbatim>\<open>mcu_spi_access(fd, buf, size, in_buf)\<close>: the MCU is handed the first
  \<^verbatim>\<open>size\<close> bytes of the request buffer.
\<close>

definition spi_access ::
  "env \<Rightarrow> world \<Rightarrow> int \<Rightarrow> uint8_t list \<Rightarrow> nat \<Rightarrow> int \<times> (nat \<Rightarrow> uint8_t) \<times> world" where
  "spi_access e w fd buf sz =
     (fst (mcu_spi_access e fd (take sz buf)), snd (mcu_spi_access e fd (take sz buf)),
      w\<lparr>mcu_log := mcu_log w @ [Spi_access fd (take sz buf)]\<rparr>)"

section \<open>Link configuration\<close>

text \<open>
  \<^verbatim>\<open>set_interface_attribs_linux\<close>, lines 62 to 101. The assignments of lines 73
  to 92, from the two speeds to \<^verbatim>\<open>c_cc[VTIME]\<close>, are \<open>raw_8n1\<close>.
\<close>

definition raw_8n1 :: "env \<Rightarrow> termios \<Rightarrow> 32 word \<Rightarrow> termios" where
  "raw_8n1 e tty0 speed =
     (let tty1 = cfsetospeed e tty0 speed;
          tty2 = cfsetispeed e tty1 speed;
          tty3 = tty2\<lparr>c_cflag := (c_cflag tty2 AND NOT CSIZE) OR CS8\<rparr>;
          tty4 = tty3\<lparr>c_cflag := c_cflag tty3 OR CLOCAL\<rparr>;
          tty5 = tty4\<lparr>c_cflag := c_cflag tty4 OR CREAD\<rparr>;
          tty6 = tty5\<lparr>c_cflag := c_cflag tty5 AND NOT PARENB\<rparr>;
          tty7 = tty6\<lparr>c_cflag := c_cflag tty6 AND NOT CSTOPB\<rparr>;
          tty8 = tty7\<lparr>c_iflag := c_iflag tty7 AND NOT IGNBRK\<rparr>;
          tty9 = tty8\<lparr>c_iflag := c_iflag tty8 AND NOT (IXON OR IXOFF OR IXANY OR ICRNL)\<rparr>;
          tty10 = tty9\<lparr>c_oflag := c_oflag tty9 AND NOT IGNBRK\<rparr>;
          tty11 = tty10\<lparr>c_oflag := c_oflag tty10 AND NOT (IXON OR IXOFF OR IXANY OR ICRNL)\<rparr>;
          tty12 = tty11\<lparr>c_lflag := 0\<rparr>;
          tty13 = tty12\<lparr>c_cc := (c_cc tty12)(VMIN := 0)\<rparr>;
          tty14 = tty13\<lparr>c_cc := (c_cc tty13)(VTIME := 50)\<rparr>
      in tty14)"

definition set_interface_attribs_linux ::
  "hal \<Rightarrow> env \<Rightarrow> world \<Rightarrow> int \<Rightarrow> 32 word \<Rightarrow> int \<times> world" where
  "set_interface_attribs_linux h e w fd speed =
     (case tcgetattr w fd termios_zero of
        (rc, tty0) \<Rightarrow>
          if rc \<noteq> 0 then (LGW_USB_ERROR h, w)
          else
            case tcsetattr e w fd (raw_8n1 e tty0 speed) of
              (rc', w') \<Rightarrow>
                if rc' \<noteq> 0 then (LGW_USB_ERROR h, w') else (LGW_USB_SUCCESS h, w'))"

text \<open>\<^verbatim>\<open>set_blocking_linux\<close>, lines 106 to 127.\<close>

definition set_blocking_linux ::
  "hal \<Rightarrow> env \<Rightarrow> world \<Rightarrow> int \<Rightarrow> bool \<Rightarrow> int \<times> world" where
  "set_blocking_linux h e w fd blocking =
     (case tcgetattr w fd termios_zero of
        (rc, tty0) \<Rightarrow>
          if rc \<noteq> 0 then (LGW_USB_ERROR h, w)
          else
            let tty1 = tty0\<lparr>c_cc := (c_cc tty0)(VMIN := (if blocking = True then 1 else 0))\<rparr>;
                tty2 = tty1\<lparr>c_cc := (c_cc tty1)(VTIME := 1)\<rparr>
            in case tcsetattr e w fd tty2 of
                 (rc', w') \<Rightarrow>
                   if rc' \<noteq> 0 then (LGW_USB_ERROR h, w') else (LGW_USB_SUCCESS h, w'))"

section \<open>Device session\<close>

text \<open>
  Lines 154 and 155 of \<^verbatim>\<open>lgw_usb_open\<close>:
  \<^verbatim>\<open>x = set_interface_attribs_linux(fd, B115200); x |= set_blocking_linux(fd, true)\<close>.
\<close>

definition configure_port :: "hal \<Rightarrow> env \<Rightarrow> world \<Rightarrow> int \<Rightarrow> int \<times> world" where
  "configure_port h e w fd =
     (case set_interface_attribs_linux h e w fd B115200 of
        (x1, w1) \<Rightarrow>
          (case set_blocking_linux h e w1 fd True of
             (x2, w2) \<Rightarrow> (x1 OR x2, w2)))"

text \<open>
  \<^verbatim>\<open>lgw_usb_open\<close>, lines 132 to 194. A pointer argument is an option: \<open>None\<close> is
  \<^verbatim>\<open>NULL\<close>, and \<open>Some c\<close> points to a location that holds \<open>c\<close>; the function
  returns the location as it leaves it. So \<^verbatim>\<open>com_target_ptr\<close> is
  \<open>Some None\<close> for a caller's variable that holds \<^verbatim>\<open>NULL\<close>, and
  \<open>Some (Some p)\<close> once the handle \<open>p\<close> has been stored in it. \<^verbatim>\<open>sprintf\<close>
  writes the path and its NUL into \<^verbatim>\<open>portname[50]\<close>.
\<close>

definition lgw_usb_open ::
  "hal \<Rightarrow> env \<Rightarrow> world \<Rightarrow> string \<Rightarrow> nat option option
     \<Rightarrow> fault + (int \<times> nat option option \<times> world)" where
  "lgw_usb_open h e w com_path com_target_ptr =
     (case com_target_ptr of
        None \<Rightarrow> Inr (LGW_USB_ERROR h, com_target_ptr, w)
      | Some _ \<Rightarrow>
         (case malloc_result e of
            None \<Rightarrow> Inr (LGW_USB_ERROR h, com_target_ptr, w)
          | Some usb_device \<Rightarrow>
              let w1 = w\<lparr>heap := (heap w)(usb_device \<mapsto> None)\<rparr> in
              if 50 \<le> length com_path then Inl Out_of_bounds
              else
                let fd = os_open e com_path in
                if fd < 0 then Inr (LGW_USB_ERROR h, com_target_ptr, free usb_device w1)
                else
                  let w2 = w1\<lparr>fds := insert fd (fds w1)\<rparr> in
                  case configure_port h e w2 fd of
                    (x, w4) \<Rightarrow>
                  if x \<noteq> 0
                  then Inr (LGW_USB_ERROR h, com_target_ptr, free usb_device w4)
                  else
                    let w5 = store_int usb_device fd w4;
                        ctp = Some (Some usb_device);
                        w6 = w5\<lparr>rand_seed := Some 0\<rparr>
                    in
                    case ping e w6 fd of
                      (rc, version, w7) \<Rightarrow>
                    if rc \<noteq> 0 then Inr (LGW_USB_ERROR h, ctp, w7)
                    else if strncmp (drop 1 version) (mcu_version_string h)
                              (sizeof_mcu_version_string h) \<noteq> 0
                    then Inr (-1, ctp, w7)
                    else
                      case gpio_write e w7 fd 0 1 1 of
                        (g1, w8) \<Rightarrow>
                      case gpio_write e w8 fd 0 2 1 of
                        (g2, w9) \<Rightarrow>
                      case gpio_write e w9 fd 0 2 0 of
                        (g3, w10) \<Rightarrow>
                      if (g1 OR g2) OR g3 \<noteq> 0
                      then Inr (LGW_USB_ERROR h, ctp, free usb_device w10)
                      else Inr (LGW_USB_SUCCESS h, ctp, w10)))"

text \<open>
  \<^verbatim>\<open>lgw_usb_close\<close>, lines 199 to 219. The descriptor leaves the set of open
  descriptors when \<^verbatim>\<open>close\<close> returns 0.
\<close>

definition lgw_usb_close :: "hal \<Rightarrow> env \<Rightarrow> world \<Rightarrow> nat option \<Rightarrow> fault + (int \<times> world)" where
  "lgw_usb_close h e w com_target =
     (case com_target of
        None \<Rightarrow> Inr (LGW_USB_ERROR h, w)
      | Some p \<Rightarrow>
         (case load_int w p of
            Inl f \<Rightarrow> Inl f
          | Inr usb_device \<Rightarrow>
              let a = os_close e usb_device;
                  w1 = (if a = 0 then w\<lparr>fds := fds w - {usb_device}\<rparr> else w);
                  w2 = free p w1
              in if a < 0 then Inr (LGW_USB_ERROR h, w2) else Inr (LGW_USB_SUCCESS h, w2)))"

section \<open>Register access\<close>

text \<open>
  The two address bytes of a frame, as the four operations compute them:
  \<^verbatim>\<open>0x80 | ((address >> 8) & 0x7F)\<close> for a write,
  \<^verbatim>\<open>0x00 | ((address >> 8) & 0x7F)\<close> for a read, and
  \<^verbatim>\<open>(address >> 0) & 0xFF\<close>, each computed in \<^verbatim>\<open>int\<close> and stored in a
  \<^verbatim>\<open>uint8_t\<close>.
\<close>

definition addr_hi_write :: "uint16_t \<Rightarrow> uint8_t" where
  "addr_hi_write address =
     ucast ((0x80 :: 32 word) OR (drop_bit 8 (ucast address :: 32 word) AND 0x7F))"

definition addr_hi_read :: "uint16_t \<Rightarrow> uint8_t" where
  "addr_hi_read address =
     ucast ((0x00 :: 32 word) OR (drop_bit 8 (ucast address :: 32 word) AND 0x7F))"

definition addr_lo :: "uint16_t \<Rightarrow> uint8_t" where
  "addr_lo address = ucast (drop_bit 0 (ucast address :: 32 word) AND 0xFF)"

text \<open>\<^verbatim>\<open>lgw_usb_w\<close>, lines 224 to 252.\<close>

definition lgw_usb_w ::
  "hal \<Rightarrow> env \<Rightarrow> world \<Rightarrow> nat option \<Rightarrow> uint8_t \<Rightarrow> uint16_t \<Rightarrow> uint8_t
     \<Rightarrow> fault + (int \<times> world)" where
  "lgw_usb_w h e w com_target spi_mux_target address data =
     (let command_size = (5 :: uint8_t) in
      case com_target of
        None \<Rightarrow> Inr (LGW_USB_ERROR h, w)
      | Some p \<Rightarrow>
         (case load_int w p of
            Inl f \<Rightarrow> Inl f
          | Inr usb_device \<Rightarrow>
              let out_buf = [0, spi_mux_target, addr_hi_write address, addr_lo address, data]
              in case spi_access e w usb_device out_buf (unat command_size) of
                   (a, in_buf, w') \<Rightarrow> if a \<noteq> 0 then Inr (-1, w') else Inr (0, w')))"

text \<open>
  \<^verbatim>\<open>lgw_usb_r\<close>, lines 257 to 288; \<^verbatim>\<open>data\<close> points to the caller's byte.
\<close>

definition lgw_usb_r ::
  "hal \<Rightarrow> env \<Rightarrow> world \<Rightarrow> nat option \<Rightarrow> uint8_t \<Rightarrow> uint16_t \<Rightarrow> uint8_t option
     \<Rightarrow> fault + (int \<times> uint8_t option \<times> world)" where
  "lgw_usb_r h e w com_target spi_mux_target address data =
     (let command_size = (6 :: uint8_t) in
      case com_target of
        None \<Rightarrow> Inr (LGW_USB_ERROR h, data, w)
      | Some p \<Rightarrow>
         (case data of
            None \<Rightarrow> Inr (LGW_USB_ERROR h, data, w)
          | Some _ \<Rightarrow>
             (case load_int w p of
                Inl f \<Rightarrow> Inl f
              | Inr usb_device \<Rightarrow>
                  let out_buf = [0, spi_mux_target, addr_hi_read address, addr_lo address,
                                 0x00, 0x00]
                  in case spi_access e w usb_device out_buf (unat command_size) of
                       (a, in_buf, w') \<Rightarrow>
                         if a \<noteq> 0 then Inr (-1, data, w')
                         else Inr (0, Some (in_buf (unat command_size - 1)), w'))))"

text \<open>
  A store into \<^verbatim>\<open>buf_req\<close>, and the two loops that fill it:
  \<^verbatim>\<open>for (i = 0; i < size; i++) buf_req[i + 4] = data[i]\<close> and
  \<^verbatim>\<open>for (i = 0; i < size; i++) buf_req[i + 5] = 0\<close>. A store or a read beyond the
  end of an array is a fault.
\<close>

definition store_byte :: "uint8_t list \<Rightarrow> nat \<Rightarrow> uint8_t \<Rightarrow> fault + uint8_t list" where
  "store_byte buf i v = (if i < length buf then Inr (buf[i := v]) else Inl Out_of_bounds)"

function wb_loop :: "nat \<Rightarrow> nat \<Rightarrow> uint8_t list \<Rightarrow> uint8_t list \<Rightarrow> fault + uint8_t list" where
  "wb_loop i sz data buf =
     (if i < sz then
        (if i < length data then
           (case store_byte buf (i + 4) (data ! i) of
              Inl f \<Rightarrow> Inl f
            | Inr buf' \<Rightarrow> wb_loop (i + 1) sz data buf')
         else Inl Out_of_bounds)
      else Inr buf)"
  by pat_completeness auto
termination
  by (relation "measure (\<lambda>(i, sz, data, buf). sz - i)") auto

function rb_loop :: "nat \<Rightarrow> nat \<Rightarrow> uint8_t list \<Rightarrow> fault + uint8_t list" where
  "rb_loop i sz buf =
     (if i < sz then
        (case store_byte buf (i + 5) 0 of
           Inl f \<Rightarrow> Inl f
         | Inr buf' \<Rightarrow> rb_loop (i + 1) sz buf')
      else Inr buf)"
  by pat_completeness auto
termination
  by (relation "measure (\<lambda>(i, sz, buf). sz - i)") auto

text \<open>
  The header stores of the burst operations, \<^verbatim>\<open>buf_req[0] = ...\<close> onwards, in
  the order of the source.
\<close>

fun store_bytes :: "uint8_t list \<Rightarrow> nat \<Rightarrow> uint8_t list \<Rightarrow> fault + uint8_t list" where
  "store_bytes buf i [] = Inr buf"
| "store_bytes buf i (v # vs) =
     (case store_byte buf i v of
        Inl f \<Rightarrow> Inl f
      | Inr buf' \<Rightarrow> store_bytes buf' (i + 1) vs)"

text \<open>\<^verbatim>\<open>lgw_usb_wb\<close>, lines 293 to 326; \<^verbatim>\<open>data\<close> points to the caller's array.\<close>

definition lgw_usb_wb ::
  "hal \<Rightarrow> env \<Rightarrow> world \<Rightarrow> nat option \<Rightarrow> uint8_t \<Rightarrow> uint16_t \<Rightarrow> uint8_t list option
     \<Rightarrow> uint16_t \<Rightarrow> fault + (int \<times> world)" where
  "lgw_usb_wb h e w com_target spi_mux_target address data sz =
     (let command_size = (sz + 4 :: uint16_t) in
      case com_target of
        None \<Rightarrow> Inr (LGW_USB_ERROR h, w)
      | Some p \<Rightarrow>
         (case data of
            None \<Rightarrow> Inr (LGW_USB_ERROR h, w)
          | Some d \<Rightarrow>
             (case load_int w p of
                Inl f \<Rightarrow> Inl f
              | Inr usb_device \<Rightarrow>
                 (case store_bytes (buf_req w) 0
                         [0, spi_mux_target, addr_hi_write address, addr_lo address] of
                    Inl f \<Rightarrow> Inl f
                  | Inr b4 \<Rightarrow>
                     (case wb_loop 0 (unat sz) d b4 of
                        Inl f \<Rightarrow> Inl f
                      | Inr b \<Rightarrow>
                         (case spi_access e (w\<lparr>buf_req := b\<rparr>) usb_device b
                                 (unat command_size) of
                            (a, in_buf, w') \<Rightarrow>
                              if a \<noteq> 0 then Inr (-1, w') else Inr (0, w')))))))"

text \<open>
  \<^verbatim>\<open>lgw_usb_rb\<close>, lines 331 to 367. \<^verbatim>\<open>in_buf\<close> has \<^verbatim>\<open>command_size\<close>
  bytes, and \<^verbatim>\<open>memcpy(data, in_buf + 5, size)\<close> reads \<^verbatim>\<open>size\<close> of them from
  offset 5 into the caller's array.
\<close>

definition lgw_usb_rb ::
  "hal \<Rightarrow> env \<Rightarrow> world \<Rightarrow> nat option \<Rightarrow> uint8_t \<Rightarrow> uint16_t \<Rightarrow> uint8_t list option
     \<Rightarrow> uint16_t \<Rightarrow> fault + (int \<times> uint8_t list option \<times> world)" where
  "lgw_usb_rb h e w com_target spi_mux_target address data sz =
     (let command_size = (sz + 5 :: uint16_t) in
      case com_target of
        None \<Rightarrow> Inr (LGW_USB_ERROR h, data, w)
      | Some p \<Rightarrow>
         (case data of
            None \<Rightarrow> Inr (LGW_USB_ERROR h, data, w)
          | Some d \<Rightarrow>
             (case load_int w p of
                Inl f \<Rightarrow> Inl f
              | Inr usb_device \<Rightarrow>
                 (case store_bytes (buf_req w) 0
                         [0, spi_mux_target, addr_hi_read address, addr_lo address, 0x00] of
                    Inl f \<Rightarrow> Inl f
                  | Inr b5 \<Rightarrow>
                     (case rb_loop 0 (unat sz) b5 of
                        Inl f \<Rightarrow> Inl f
                      | Inr b \<Rightarrow>
                         (case spi_access e (w\<lparr>buf_req := b\<rparr>) usb_device b
                                 (unat command_size) of
                            (a, in_buf, w') \<Rightarrow>
                              if a \<noteq> 0 then Inr (-1, data, w')
                              else if unat command_size < 5 + unat sz \<or> length d < unat sz
                              then Inl Out_of_bounds
                              else Inr (0, Some (map in_buf [5 ..< 5 + unat sz]
                                                   @ drop (unat sz) d), w')))))))"

section \<open>Temperature sensor\<close>

text \<open>
  \<^verbatim>\<open>stts751_configure\<close> and \<^verbatim>\<open>stts751_get_temperature\<close>
  (\<^verbatim>\<open>loragw_stts751.c\<close>, lines 80 to 96). The value stored is the
  \<^verbatim>\<open>float\<close> 30, which is the real number 30. The pointer is dereferenced without a
  check.
\<close>

definition stts751_configure :: "hal \<Rightarrow> world \<Rightarrow> int \<Rightarrow> uint8_t \<Rightarrow> int \<times> world" where
  "stts751_configure h w i2c_fd i2c_addr = (LGW_I2C_SUCCESS h, w)"

definition stts751_get_temperature ::
  "hal \<Rightarrow> world \<Rightarrow> int \<Rightarrow> uint8_t \<Rightarrow> real option \<Rightarrow> fault + (int \<times> real option \<times> world)" where
  "stts751_get_temperature h w i2c_fd i2c_addr temperature =
     (case temperature of
        None \<Rightarrow> Inl Invalid_pointer
      | Some _ \<Rightarrow> Inr (LGW_I2C_SUCCESS h, Some 30, w))"

text \<open>
  The decoder of a single-write frame. The sources have none (the MCU decodes): this one
  follows the layout of the specification, the mux target in byte 1, the low seven bits
  of byte 2 and the eight bits of byte 3 as the address, and the data in byte 4.
\<close>

definition decode_write :: "uint8_t list \<Rightarrow> (uint8_t \<times> uint16_t \<times> uint8_t) option" where
  "decode_write frame =
     (case frame of
        [r, m, hi, lo, d] \<Rightarrow>
          Some (m, push_bit 8 (ucast (hi AND 0x7F) :: uint16_t) OR ucast lo, d)
      | _ \<Rightarrow> None)"

text \<open>The address carried by bytes 2 and 3 of a frame, and the read/write bit.\<close>

definition frame_address :: "uint8_t list \<Rightarrow> uint16_t" where
  "frame_address frame =
     push_bit 8 (ucast ((frame ! 2) AND 0x7F) :: uint16_t) OR ucast (frame ! 3)"

definition frame_is_write :: "uint8_t list \<Rightarrow> bool" where
  "frame_is_write frame = bit (frame ! 2) 7"

section \<open>A test bench\<close>

text \<open>
  Concrete header constants, a relay stub in which every call succeeds and the reply
  buffer holds \<open>0x7F\<close> everywhere, a world before any session is opened (descriptor 3
  is a terminal), and the same world with an open session whose handle is the cell 8.
\<close>

definition stub_hal :: hal where
  "stub_hal =
     \<lparr>LGW_USB_SUCCESS = 0, LGW_USB_ERROR = -1, LGW_I2C_SUCCESS = 0,
      mcu_version_string = ''01.00.00'', sizeof_mcu_version_string = 9\<rparr>"

definition stub_env :: env where
  "stub_env =
     \<lparr>malloc_result = Some 8,
      os_open = (\<lambda>_. 3),
      os_close = (\<lambda>_. 0),
      cfsetospeed = (\<lambda>t s. t\<lparr>c_ospeed := s\<rparr>),
      cfsetispeed = (\<lambda>t s. t\<lparr>c_ispeed := s\<rparr>),
      tcsetattr_result = (\<lambda>_ _. 0),
      mcu_ping = (\<lambda>_. (0, ''R01.00.00'')),
      mcu_gpio_write = (\<lambda>_ _ _ _. 0),
      mcu_spi_access = (\<lambda>_ _. (0, (\<lambda>_. 0x7F)))\<rparr>"

definition stub_world :: world where
  "stub_world =
     \<lparr>heap = Map.empty, fds = {}, ttys = [3 \<mapsto> termios_zero],
      buf_req = replicate 70000 0, rand_seed = None, mcu_log = []\<rparr>"

definition ready_world :: world where
  "ready_world = stub_world\<lparr>heap := [8 \<mapsto> Some 3], fds := {3}\<rparr>"

text \<open>
  Variants of the stub: a relay that fails every transfer, an MCU that answers the ping
  with another firmware version, a \<^verbatim>\<open>close\<close> that fails, and a GPIO layer that
  fails to release the reset.
\<close>

definition failing_relay_env :: env where
  "failing_relay_env = stub_env\<lparr>mcu_spi_access := (\<lambda>_ _. (1, (\<lambda>_. 0)))\<rparr>"

definition mismatch_env :: env where
  "mismatch_env = stub_env\<lparr>mcu_ping := (\<lambda>_. (0, ''R00.02.06''))\<rparr>"

definition close_fails_env :: env where
  "close_fails_env = stub_env\<lparr>os_close := (\<lambda>_. -1)\<rparr>"

definition gpio_fails_env :: env where
  "gpio_fails_env =
     stub_env\<lparr>mcu_gpio_write := (\<lambda>fd bank pin level. if pin = 2 \<and> level = 0 then 1 else 0)\<rparr>"

text \<open>The GPIO calls of a log.\<close>

fun is_gpio_write :: "mcu_call \<Rightarrow> bool" where
  "is_gpio_write (Gpio_write fd bank pin level) = True"
| "is_gpio_write _ = False"

definition gpio_calls :: "mcu_call list \<Rightarrow> mcu_call list" where
  "gpio_calls calls = filter is_gpio_write calls"

section \<open>The burst buffer\<close>

text \<open>
  The loops are unfolded by hand: their equations are taken out of the simplifier's set.
\<close>

declare wb_loop.simps [simp del] rb_loop.simps [simp del]


lemma store_byte_ok: "i < length buf \<Longrightarrow> store_byte buf i v = Inr (buf[i := v])"
  by (simp add: store_byte_def)

lemma store_bytes_ok:
  "i + length vs \<le> length buf \<Longrightarrow>
   store_bytes buf i vs = Inr (take i buf @ vs @ drop (i + length vs) buf)"
proof (induction vs arbitrary: buf i)
  case Nil
  then show ?case by simp
next
  case (Cons v vs)
  have "take (Suc i) (buf[i := v]) = take i buf @ [v]"
    using Cons.prems by (simp add: take_Suc_conv_app_nth)
  with Cons show ?case
    by (simp add: store_byte_def)
qed

lemma wb_loop_ok:
  "i \<le> n \<Longrightarrow> n \<le> length data \<Longrightarrow> n + 4 \<le> length buf \<Longrightarrow>
   wb_loop i n data buf = Inr (take (i + 4) buf @ take (n - i) (drop i data) @ drop (n + 4) buf)"
proof (induction i n data buf rule: wb_loop.induct)
  case (1 i sz data buf)
  show ?case
  proof (cases "i < sz")
    case False
    with "1.prems" show ?thesis by (subst wb_loop.simps) simp
  next
    case True
    let ?b = "buf[i + 4 := data ! i]"
    have sb: "store_byte buf (i + 4) (data ! i) = Inr ?b"
      using True "1.prems" by (simp add: store_byte_def)
    have ih: "wb_loop (i + 1) sz data ?b =
        Inr (take (i + 1 + 4) ?b @ take (sz - (i + 1)) (drop (i + 1) data) @ drop (sz + 4) ?b)"
      using "1.IH"[OF True _ sb] True "1.prems" by simp
    have len: "i + 4 < length ?b"
      using True "1.prems" by simp
    have "take (Suc (i + 4)) ?b = take (i + 4) ?b @ [?b ! (i + 4)]"
      using len by (rule take_Suc_conv_app_nth)
    also have "\<dots> = take (i + 4) buf @ [data ! i]"
      using len by simp
    finally have t1: "take (i + 1 + 4) ?b = take (i + 4) buf @ [data ! i]"
      by simp
    have t2: "drop (sz + 4) ?b = drop (sz + 4) buf"
      using True by simp
    have t3: "take (sz - i) (drop i data) = data ! i # take (sz - (i + 1)) (drop (i + 1) data)"
      using True "1.prems"
      by (metis Cons_nth_drop_Suc Suc_diff_Suc Suc_eq_plus1 less_le_trans take_Suc_Cons)
    have "wb_loop i sz data buf = wb_loop (i + 1) sz data ?b"
      using True "1.prems" sb by (subst wb_loop.simps) simp
    with ih t1 t2 t3 show ?thesis by simp
  qed
qed

lemma rb_loop_ok:
  "i \<le> n \<Longrightarrow> n + 5 \<le> length buf \<Longrightarrow>
   rb_loop i n buf = Inr (take (i + 5) buf @ replicate (n - i) 0 @ drop (n + 5) buf)"
proof (induction i n buf rule: rb_loop.induct)
  case (1 i sz buf)
  show ?case
  proof (cases "i < sz")
    case False
    with "1.prems" show ?thesis by (subst rb_loop.simps) simp
  next
    case True
    let ?b = "buf[i + 5 := 0]"
    have sb: "store_byte buf (i + 5) 0 = Inr ?b"
      using True "1.prems" by (simp add: store_byte_def)
    have ih: "rb_loop (i + 1) sz ?b =
        Inr (take (i + 1 + 5) ?b @ replicate (sz - (i + 1)) 0 @ drop (sz + 5) ?b)"
      using "1.IH"[OF True sb] True "1.prems" by simp
    have len: "i + 5 < length ?b"
      using True "1.prems" by simp
    have "take (Suc (i + 5)) ?b = take (i + 5) ?b @ [?b ! (i + 5)]"
      using len by (rule take_Suc_conv_app_nth)
    also have "\<dots> = take (i + 5) buf @ [0]"
      using len by simp
    finally have t1: "take (i + 1 + 5) ?b = take (i + 5) buf @ [0]"
      by simp
    have t2: "drop (sz + 5) ?b = drop (sz + 5) buf"
      using True by simp
    have t3: "replicate (sz - i) (0::uint8_t) = 0 # replicate (sz - (i + 1)) 0"
      using True by (metis Suc_diff_Suc Suc_eq_plus1 replicate_Suc)
    have "rb_loop i sz buf = rb_loop (i + 1) sz ?b"
      using True sb by (subst rb_loop.simps) simp
    with ih t1 t2 t3 show ?thesis by simp
  qed
qed

section \<open>What each register operation does\<close>

lemma lgw_usb_w_run:
  assumes "load_int w p = Inr fd"
  shows "lgw_usb_w h e w (Some p) mux address data =
     Inr (if fst (mcu_spi_access e fd [0, mux, addr_hi_write address, addr_lo address, data]) \<noteq> 0
          then -1 else 0,
          w\<lparr>mcu_log := mcu_log w @
             [Spi_access fd [0, mux, addr_hi_write address, addr_lo address, data]]\<rparr>)"
  using assms by (simp add: lgw_usb_w_def spi_access_def)

lemma lgw_usb_r_run:
  assumes "load_int w p = Inr fd"
  shows "lgw_usb_r h e w (Some p) mux address (Some old) =
     Inr (if fst (mcu_spi_access e fd [0, mux, addr_hi_read address, addr_lo address, 0, 0]) \<noteq> 0
          then (-1, Some old,
                w\<lparr>mcu_log := mcu_log w @
                   [Spi_access fd [0, mux, addr_hi_read address, addr_lo address, 0, 0]]\<rparr>)
          else (0, Some (snd (mcu_spi_access e fd
                                [0, mux, addr_hi_read address, addr_lo address, 0, 0]) 5),
                w\<lparr>mcu_log := mcu_log w @
                   [Spi_access fd [0, mux, addr_hi_read address, addr_lo address, 0, 0]]\<rparr>))"
  using assms by (simp add: lgw_usb_r_def spi_access_def Let_def)

lemma unat_add_le_u16: "unat (sz + k :: uint16_t) \<le> unat sz + unat k"
  by (simp add: unat_word_ariths)

lemma burst_fill_header:
  assumes "length hdr + n \<le> length buf"
  shows "store_bytes buf 0 hdr = Inr (hdr @ drop (length hdr) buf)"
proof -
  have "store_bytes buf 0 hdr = Inr (take 0 buf @ hdr @ drop (0 + length hdr) buf)"
    by (rule store_bytes_ok) (use assms in simp)
  then show ?thesis by simp
qed

lemma wb_fill:
  assumes "length hdr = 4" and "n \<le> length d" and "n + 4 \<le> length buf"
  shows "wb_loop 0 n d (hdr @ drop 4 buf) = Inr (hdr @ take n d @ drop (n + 4) buf)"
proof -
  let ?b4 = "hdr @ drop 4 buf"
  have "wb_loop 0 n d ?b4 = Inr (take (0 + 4) ?b4 @ take (n - 0) (drop 0 d) @ drop (n + 4) ?b4)"
    by (rule wb_loop_ok) (use assms in simp_all)
  moreover have "take (0 + 4) ?b4 = hdr"
    using assms(1) by simp
  moreover have "drop (n + 4) ?b4 = drop (n + 4) buf"
    using assms(1) by (simp add: add.commute)
  ultimately show ?thesis by simp
qed

lemma rb_fill:
  assumes "length hdr = 5" and "n + 5 \<le> length buf"
  shows "rb_loop 0 n (hdr @ drop 5 buf) = Inr (hdr @ replicate n 0 @ drop (n + 5) buf)"
proof -
  let ?b5 = "hdr @ drop 5 buf"
  have "rb_loop 0 n ?b5 = Inr (take (0 + 5) ?b5 @ replicate (n - 0) 0 @ drop (n + 5) ?b5)"
    by (rule rb_loop_ok) (use assms in simp_all)
  moreover have "take (0 + 5) ?b5 = hdr"
    using assms(1) by simp
  moreover have "drop (n + 5) ?b5 = drop (n + 5) buf"
    using assms(1) by (simp add: add.commute)
  ultimately show ?thesis by simp
qed

lemma lgw_usb_wb_run:
  assumes "load_int w p = Inr fd"
    and "unat sz \<le> length d"
    and "unat sz + 4 \<le> length (buf_req w)"
  shows "lgw_usb_wb h e w (Some p) mux address (Some d) sz =
     Inr (if fst (mcu_spi_access e fd
                    (take (unat (sz + 4))
                       ([0, mux, addr_hi_write address, addr_lo address] @ take (unat sz) d))) \<noteq> 0
          then -1 else 0,
          w\<lparr>buf_req := [0, mux, addr_hi_write address, addr_lo address] @ take (unat sz) d
                          @ drop (unat sz + 4) (buf_req w),
            mcu_log := mcu_log w @
              [Spi_access fd
                 (take (unat (sz + 4))
                    ([0, mux, addr_hi_write address, addr_lo address] @ take (unat sz) d))]\<rparr>)"
proof -
  define hdr where "hdr = [0, mux, addr_hi_write address, addr_lo address]"
  define B where "B = hdr @ take (unat sz) d @ drop (unat sz + 4) (buf_req w)"
  define F where "F = take (unat (sz + 4)) (hdr @ take (unat sz) d)"
  have len: "length hdr = 4"
    by (simp add: hdr_def)
  have s4: "store_bytes (buf_req w) 0 hdr = Inr (hdr @ drop 4 (buf_req w))"
    using burst_fill_header[of hdr "unat sz" "buf_req w"] assms(3) len by simp
  have lp: "wb_loop 0 (unat sz) d (hdr @ drop 4 (buf_req w)) = Inr B"
    unfolding B_def using len assms(2,3) by (rule wb_fill)
  have "unat (sz + 4) \<le> unat sz + 4"
    using unat_add_le_u16[of sz 4] by simp
  then have tk: "take (unat (sz + 4)) B = F"
    using assms(2) len by (simp add: B_def F_def)
  have "lgw_usb_wb h e w (Some p) mux address (Some d) sz =
     Inr (if fst (mcu_spi_access e fd F) \<noteq> 0 then -1 else 0,
          w\<lparr>buf_req := B, mcu_log := mcu_log w @ [Spi_access fd F]\<rparr>)"
    unfolding lgw_usb_wb_def hdr_def[symmetric]
    using assms(1) s4 lp tk by (simp add: spi_access_def Let_def)
  then show ?thesis
    by (simp only: B_def F_def hdr_def)
qed

lemma lgw_usb_rb_fill:
  fixes sz :: uint16_t
  assumes "unat sz + 5 \<le> length (buf_req w)"
    and "length hdr = 5"
  shows "store_bytes (buf_req w) 0 hdr = Inr (hdr @ drop 5 (buf_req w))"
    and "rb_loop 0 (unat sz) (hdr @ drop 5 (buf_req w))
           = Inr (hdr @ replicate (unat sz) 0 @ drop (unat sz + 5) (buf_req w))"
    and "take (unat (sz + 5)) (hdr @ replicate (unat sz) 0 @ drop (unat sz + 5) (buf_req w))
           = take (unat (sz + 5)) (hdr @ replicate (unat sz) 0)"
proof -
  note len = assms(2)
  show "store_bytes (buf_req w) 0 hdr = Inr (hdr @ drop 5 (buf_req w))"
    using burst_fill_header[of hdr "unat sz" "buf_req w"] assms(1) len by simp
  show "rb_loop 0 (unat sz) (hdr @ drop 5 (buf_req w))
           = Inr (hdr @ replicate (unat sz) 0 @ drop (unat sz + 5) (buf_req w))"
    using len assms(1) by (rule rb_fill)
  have "unat (sz + 5) \<le> unat sz + 5"
    using unat_add_le_u16[of sz 5] by simp
  then show "take (unat (sz + 5)) (hdr @ replicate (unat sz) 0 @ drop (unat sz + 5) (buf_req w))
           = take (unat (sz + 5)) (hdr @ replicate (unat sz) 0)"
    using len by simp
qed

lemma lgw_usb_rb_run_failure:
  assumes "load_int w p = Inr fd"
    and "unat sz + 5 \<le> length (buf_req w)"
    and "fst (mcu_spi_access e fd
                (take (unat (sz + 5))
                   ([0, mux, addr_hi_read address, addr_lo address, 0] @ replicate (unat sz) 0))) \<noteq> 0"
  shows "lgw_usb_rb h e w (Some p) mux address (Some d) sz =
     Inr (-1, Some d,
          w\<lparr>buf_req := [0, mux, addr_hi_read address, addr_lo address, 0] @ replicate (unat sz) 0
                          @ drop (unat sz + 5) (buf_req w),
            mcu_log := mcu_log w @
              [Spi_access fd
                 (take (unat (sz + 5))
                    ([0, mux, addr_hi_read address, addr_lo address, 0] @ replicate (unat sz) 0))]\<rparr>)"
proof -
  define hdr where "hdr = [0, mux, addr_hi_read address, addr_lo address, 0]"
  define B where "B = hdr @ replicate (unat sz) 0 @ drop (unat sz + 5) (buf_req w)"
  define F where "F = take (unat (sz + 5)) (hdr @ replicate (unat sz) 0)"
  have len: "length hdr = 5"
    by (simp add: hdr_def)
  note fill = lgw_usb_rb_fill[OF assms(2) len, folded B_def F_def]
  have fails: "fst (mcu_spi_access e fd F) \<noteq> 0"
    unfolding F_def hdr_def by (rule assms(3))
  have "lgw_usb_rb h e w (Some p) mux address (Some d) sz =
     Inr (-1, Some d, w\<lparr>buf_req := B, mcu_log := mcu_log w @ [Spi_access fd F]\<rparr>)"
    unfolding lgw_usb_rb_def hdr_def[symmetric]
    using assms(1) fails fill by (simp add: spi_access_def Let_def)
  then show ?thesis
    by (simp only: B_def F_def hdr_def)
qed

lemma lgw_usb_rb_run_success:
  assumes "load_int w p = Inr fd"
    and "unat sz + 5 \<le> length (buf_req w)"
    and "unat sz \<le> length d"
    and "unat sz + 5 < 2 ^ 16"
    and "fst (mcu_spi_access e fd
                ([0, mux, addr_hi_read address, addr_lo address, 0] @ replicate (unat sz) 0)) = 0"
  shows "lgw_usb_rb h e w (Some p) mux address (Some d) sz =
     Inr (0, Some (map (snd (mcu_spi_access e fd
                ([0, mux, addr_hi_read address, addr_lo address, 0] @ replicate (unat sz) 0)))
                     [5 ..< 5 + unat sz] @ drop (unat sz) d),
          w\<lparr>buf_req := [0, mux, addr_hi_read address, addr_lo address, 0] @ replicate (unat sz) 0
                          @ drop (unat sz + 5) (buf_req w),
            mcu_log := mcu_log w @
              [Spi_access fd
                 ([0, mux, addr_hi_read address, addr_lo address, 0] @ replicate (unat sz) 0)]\<rparr>)"
proof -
  define hdr where "hdr = [0, mux, addr_hi_read address, addr_lo address, 0]"
  define B where "B = hdr @ replicate (unat sz) 0 @ drop (unat sz + 5) (buf_req w)"
  define F where "F = hdr @ replicate (unat sz) 0"
  have len: "length hdr = 5"
    by (simp add: hdr_def)
  have u: "unat (sz + 5) = unat sz + 5"
    using assms(4) by (simp add: unat_word_ariths)
  have "take (unat (sz + 5)) (hdr @ replicate (unat sz) 0) = F"
    using len u by (simp add: F_def)
  note fill = lgw_usb_rb_fill[OF assms(2) len, unfolded this, folded B_def]
  have ok: "fst (mcu_spi_access e fd F) = 0"
    unfolding F_def hdr_def by (rule assms(5))
  have "lgw_usb_rb h e w (Some p) mux address (Some d) sz =
     Inr (0, Some (map (snd (mcu_spi_access e fd F)) [5 ..< 5 + unat sz] @ drop (unat sz) d),
          w\<lparr>buf_req := B, mcu_log := mcu_log w @ [Spi_access fd F]\<rparr>)"
    unfolding lgw_usb_rb_def hdr_def[symmetric]
    using assms(1,3) ok fill u by (simp add: spi_access_def Let_def)
  then show ?thesis
    by (simp only: B_def F_def hdr_def)
qed

section \<open>The address bytes\<close>

lemma bit15_of_small:
  fixes a :: uint16_t
  assumes "a < 0x8000"
  shows "\<not> bit a 15"
proof -
  have "a < 2 ^ 15" using assms by simp
  then have "a AND mask 15 = a"
    by (rule less_mask_eq)
  then have "bit a 15 = bit (a AND mask 15) 15" by simp
  then show ?thesis by (simp add: bit_simps)
qed

lemma small_of_bit15:
  fixes a :: uint16_t
  assumes "\<not> bit a 15"
  shows "a < 0x8000"
proof -
  have "a AND mask 15 = a"
  proof (rule bit_word_eqI)
    fix n assume "n < LENGTH(16)"
    then have "n < 15 \<or> n = 15" by auto
    with assms show "bit (a AND mask 15) n = bit a n"
      by (auto simp: bit_simps)
  qed
  moreover have "a AND mask 15 < 2 ^ 15"
    by (rule and_mask_less_size) (simp add: word_size)
  ultimately show ?thesis by simp
qed

lemma hex_as_mask:
  "(0xFF :: 32 word) = mask 8" "(0x7F :: 32 word) = mask 7" "(0x80 :: 32 word) = 2 ^ 7"
  "(0x7F :: uint8_t) = mask 7" "(0x80 :: uint8_t) = 2 ^ 7" "(0x7FFF :: uint16_t) = mask 15"
  by (simp_all add: mask_eq_exp_minus_1)

lemma bit_0x80_iff: "bit (0x80 :: 'a::len word) n \<longleftrightarrow> n = 7 \<and> 7 < LENGTH('a)"
proof -
  have e: "(0x80 :: 'a word) = 2 ^ 7" by simp
  show ?thesis unfolding e bit_exp_iff by (auto simp: possible_bit_word)
qed

lemma write_bit_set: "bit (addr_hi_write address) 7"
  unfolding addr_hi_write_def hex_as_mask by (simp add: bit_simps)

lemma read_bit_clear: "\<not> bit (addr_hi_read address) 7"
  unfolding addr_hi_read_def hex_as_mask by (simp add: bit_simps)

lemma addr_lo_low_byte: "addr_lo address = ucast address"
  unfolding addr_lo_def hex_as_mask by (rule bit_word_eqI) (auto simp: bit_simps)

lemma addr_hi_write_alt: "addr_hi_write address = 0x80 OR (ucast (drop_bit 8 address) AND 0x7F)"
  unfolding addr_hi_write_def hex_as_mask by (rule bit_word_eqI) (auto simp: bit_simps)

lemma addr_hi_read_alt: "addr_hi_read address = ucast (drop_bit 8 address) AND 0x7F"
  unfolding addr_hi_read_def hex_as_mask by (rule bit_word_eqI) (auto simp: bit_simps)


lemma address_of_read_bytes:
  "push_bit 8 (ucast (addr_hi_read address AND 0x7F) :: uint16_t) OR ucast (addr_lo address)
     = address AND 0x7FFF"
  unfolding addr_hi_read_def addr_lo_def hex_as_mask
  by (rule bit_word_eqI) (auto simp: bit_simps)

lemma write_header_low_bits: "addr_hi_write address AND 0x7F = addr_hi_read address AND 0x7F"
proof -
  have z: "(0x80 :: uint8_t) AND 0x7F = 0" by simp
  show ?thesis
    unfolding addr_hi_write_alt addr_hi_read_alt
    by (simp add: bit.conj_disj_distrib2 z and.assoc)
qed

lemma address_of_write_bytes:
  "push_bit 8 (ucast (addr_hi_write address AND 0x7F) :: uint16_t) OR ucast (addr_lo address)
     = address AND 0x7FFF"
  unfolding write_header_low_bits by (rule address_of_read_bytes)

lemma mask15_id_iff: "(address AND 0x7FFF = address) = (address < 0x8000)" for address :: uint16_t
proof
  assume "address AND 0x7FFF = address"
  then have "bit address 15 = bit (address AND 0x7FFF) 15" by simp
  then have "\<not> bit address 15" unfolding hex_as_mask by (simp add: bit_simps)
  then show "address < 0x8000" by (rule small_of_bit15)
next
  assume "address < 0x8000"
  then have "address < 2 ^ 15" by simp
  then have "address AND mask 15 = address" by (rule less_mask_eq)
  then show "address AND 0x7FFF = address" by (simp add: mask_eq_exp_minus_1)
qed

section \<open>The frame codec\<close>

lemma load_int_log [simp]: "load_int (w\<lparr>mcu_log := l\<rparr>) p = load_int w p"
  by (simp add: load_int_def)

lemma load_int_ready_world: "load_int ready_world 8 = Inr 3"
  by (simp add: load_int_def ready_world_def stub_world_def)

text \<open>
  Claim C5. With a valid handle, \<^verbatim>\<open>lgw_usb_w\<close> returns and hands the MCU exactly
  the five bytes 0, the mux target, \<^verbatim>\<open>0x80 | ((address >> 8) & 0x7F)\<close>,
  \<^verbatim>\<open>address & 0xFF\<close> and the data byte; decoding that frame gives back the mux
  target, the address and the data exactly when the address fits in 15 bits.
\<close>

theorem lgw_usb_w_frame_roundtrip:
  assumes "load_int w p = Inr fd"
  shows "\<exists>a w'. lgw_usb_w h e w (Some p) mux address data = Inr (a, w')
           \<and> mcu_log w' = mcu_log w @
                 [Spi_access fd [0, mux, addr_hi_write address, addr_lo address, data]]
           \<and> (decode_write [0, mux, addr_hi_write address, addr_lo address, data]
                  = Some (mux, address, data) \<longleftrightarrow> address < 0x8000)"
proof -
  have "decode_write [0, mux, addr_hi_write address, addr_lo address, data]
          = Some (mux, address AND 0x7FFF, data)"
    by (simp add: decode_write_def address_of_write_bytes)
  then have "decode_write [0, mux, addr_hi_write address, addr_lo address, data]
                  = Some (mux, address, data) \<longleftrightarrow> address < 0x8000"
    by (simp add: mask15_id_iff)
  then show ?thesis
    using lgw_usb_w_run[OF assms, of h e mux address data] by simp
qed

theorem lgw_usb_w_frame_roundtrip_witness:
  "load_int ready_world 8 = Inr 3
   \<and> (\<exists>a w'. lgw_usb_w stub_hal stub_env ready_world (Some 8) 1 0x5601 0x2A = Inr (a, w')
           \<and> mcu_log w' = mcu_log ready_world @ [Spi_access 3 [0, 1, 0xD6, 0x01, 0x2A]]
           \<and> decode_write [0, 1, 0xD6, 0x01, 0x2A] = Some (1, 0x5601, 0x2A))"
  using lgw_usb_w_frame_roundtrip[OF load_int_ready_world, of stub_hal stub_env 1 "0x5601" "0x2A"]
  by (simp add: load_int_ready_world addr_hi_write_def addr_lo_def)

text \<open>
  Claim C4. For an address of 15 bits, bit 7 of byte 2 of the frame is 1 in the frame of
  \<^verbatim>\<open>lgw_usb_w\<close> and 0 in the frame of \<^verbatim>\<open>lgw_usb_r\<close>, and the low seven
  bits of byte 2 followed by the eight bits of byte 3 are the address.
\<close>

theorem address_encoding_roundtrip:
  assumes "load_int w p = Inr fd" and "address < 0x8000"
  shows "(\<exists>a w' frame. lgw_usb_w h e w (Some p) mux address data = Inr (a, w')
            \<and> mcu_log w' = mcu_log w @ [Spi_access fd frame]
            \<and> frame_is_write frame \<and> frame_address frame = address)
       \<and> (\<exists>a out w' frame. lgw_usb_r h e w (Some p) mux address (Some old) = Inr (a, out, w')
            \<and> mcu_log w' = mcu_log w @ [Spi_access fd frame]
            \<and> \<not> frame_is_write frame \<and> frame_address frame = address)"
proof -
  have m: "address AND 0x7FFF = address"
    using assms(2) by (simp add: mask15_id_iff)
  let ?fw = "[0, mux, addr_hi_write address, addr_lo address, data]"
  let ?fr = "[0, mux, addr_hi_read address, addr_lo address, 0, 0]"
  have w: "frame_is_write ?fw \<and> frame_address ?fw = address"
    by (simp add: frame_is_write_def frame_address_def write_bit_set address_of_write_bytes m)
  have r: "\<not> frame_is_write ?fr \<and> frame_address ?fr = address"
    by (simp add: frame_is_write_def frame_address_def read_bit_clear address_of_read_bytes m)
  have "\<exists>a w' frame. lgw_usb_w h e w (Some p) mux address data = Inr (a, w')
            \<and> mcu_log w' = mcu_log w @ [Spi_access fd frame]
            \<and> frame_is_write frame \<and> frame_address frame = address"
    using lgw_usb_w_run[OF assms(1), of h e mux address data] w by simp
  moreover have "\<exists>a out w' frame. lgw_usb_r h e w (Some p) mux address (Some old) = Inr (a, out, w')
            \<and> mcu_log w' = mcu_log w @ [Spi_access fd frame]
            \<and> \<not> frame_is_write frame \<and> frame_address frame = address"
  proof (cases "fst (mcu_spi_access e fd ?fr) \<noteq> 0")
    case True
    then show ?thesis
      using lgw_usb_r_run[OF assms(1), of h e mux address old] r by simp
  next
    case False
    then show ?thesis
      using lgw_usb_r_run[OF assms(1), of h e mux address old] r by simp
  qed
  ultimately show ?thesis by blast
qed

theorem address_encoding_roundtrip_witness:
  "load_int ready_world 8 = Inr 3 \<and> (0x5601 :: uint16_t) < 0x8000
   \<and> (\<exists>a w' frame. lgw_usb_w stub_hal stub_env ready_world (Some 8) 1 0x5601 0x2A = Inr (a, w')
            \<and> mcu_log w' = mcu_log ready_world @ [Spi_access 3 frame]
            \<and> frame_is_write frame \<and> frame_address frame = 0x5601)
   \<and> (\<exists>a out w' frame. lgw_usb_r stub_hal stub_env ready_world (Some 8) 1 0x5601 (Some 0) = Inr (a, out, w')
            \<and> mcu_log w' = mcu_log ready_world @ [Spi_access 3 frame]
            \<and> \<not> frame_is_write frame \<and> frame_address frame = 0x5601)"
proof -
  have small: "(0x5601 :: uint16_t) < 0x8000" by simp
  show ?thesis
    using address_encoding_roundtrip[OF load_int_ready_world small, of stub_hal stub_env 1 "0x2A" 0]
      load_int_ready_world small by simp
qed

text \<open>
  The burst operations encode the address in the same way, as long as the length of the
  frame does not wrap around.
\<close>

lemma address_encoding_burst:
  assumes "load_int w p = Inr fd" and "address < 0x8000"
    and "unat sz \<le> length d"
    and "unat sz + 5 \<le> length (buf_req w)"
    and "unat sz + 5 < 2 ^ 16"
  shows "(\<exists>a w' frame. lgw_usb_wb h e w (Some p) mux address (Some d) sz = Inr (a, w')
            \<and> mcu_log w' = mcu_log w @ [Spi_access fd frame]
            \<and> frame_is_write frame \<and> frame_address frame = address)
       \<and> (\<exists>a out w' frame. lgw_usb_rb h e w (Some p) mux address (Some d) sz = Inr (a, out, w')
            \<and> mcu_log w' = mcu_log w @ [Spi_access fd frame]
            \<and> \<not> frame_is_write frame \<and> frame_address frame = address)"
proof -
  have m: "address AND 0x7FFF = address"
    using assms(2) by (simp add: mask15_id_iff)
  define fw where "fw = take (unat (sz + 4))
                  ([0, mux, addr_hi_write address, addr_lo address] @ take (unat sz) d)"
  define fr where
    "fr = [0, mux, addr_hi_read address, addr_lo address, 0] @ replicate (unat sz) 0"
  have u4: "unat (sz + 4) = unat sz + 4"
    using assms(5) by (simp add: unat_word_ariths)
  have u5: "unat (sz + 5) = unat sz + 5"
    using assms(5) by (simp add: unat_word_ariths)
  have "fw ! 2 = addr_hi_write address" and "fw ! 3 = addr_lo address"
    by (simp_all add: fw_def u4)
  then have w: "frame_is_write fw \<and> frame_address fw = address"
    by (simp add: frame_is_write_def frame_address_def write_bit_set address_of_write_bytes m)
  have "fr ! 2 = addr_hi_read address" and "fr ! 3 = addr_lo address"
    by (simp_all add: fr_def)
  then have r: "\<not> frame_is_write fr \<and> frame_address fr = address"
    by (simp add: frame_is_write_def frame_address_def read_bit_clear address_of_read_bytes m)
  have cap4: "unat sz + 4 \<le> length (buf_req w)"
    using assms(4) by simp
  define w1 where "w1 = w\<lparr>buf_req := [0, mux, addr_hi_write address, addr_lo address]
                            @ take (unat sz) d @ drop (unat sz + 4) (buf_req w),
                          mcu_log := mcu_log w @ [Spi_access fd fw]\<rparr>"
  have "lgw_usb_wb h e w (Some p) mux address (Some d) sz
          = Inr (if fst (mcu_spi_access e fd fw) \<noteq> 0 then -1 else 0, w1)"
    unfolding fw_def w1_def by (rule lgw_usb_wb_run[OF assms(1,3) cap4])
  moreover have "mcu_log w1 = mcu_log w @ [Spi_access fd fw]"
    by (simp add: w1_def)
  ultimately have wb: "\<exists>a w' frame. lgw_usb_wb h e w (Some p) mux address (Some d) sz = Inr (a, w')
            \<and> mcu_log w' = mcu_log w @ [Spi_access fd frame]
            \<and> frame_is_write frame \<and> frame_address frame = address"
    using w by metis
  define w2 where "w2 = w\<lparr>buf_req := [0, mux, addr_hi_read address, addr_lo address, 0]
                            @ replicate (unat sz) 0 @ drop (unat sz + 5) (buf_req w),
                          mcu_log := mcu_log w @ [Spi_access fd fr]\<rparr>"
  have tk: "take (unat (sz + 5)) fr = fr"
    by (simp add: u5 fr_def)
  have lg2: "mcu_log w2 = mcu_log w @ [Spi_access fd fr]"
    by (simp add: w2_def)
  have rb: "\<exists>a out w' frame. lgw_usb_rb h e w (Some p) mux address (Some d) sz = Inr (a, out, w')
            \<and> mcu_log w' = mcu_log w @ [Spi_access fd frame]
            \<and> \<not> frame_is_write frame \<and> frame_address frame = address"
  proof (cases "fst (mcu_spi_access e fd fr) = 0")
    case True
    have "lgw_usb_rb h e w (Some p) mux address (Some d) sz
            = Inr (0, Some (map (snd (mcu_spi_access e fd fr)) [5 ..< 5 + unat sz]
                              @ drop (unat sz) d), w2)"
      unfolding fr_def w2_def
      by (rule lgw_usb_rb_run_success[OF assms(1,4,3,5) True[unfolded fr_def]])
    with lg2 r show ?thesis by metis
  next
    case False
    then have f: "fst (mcu_spi_access e fd (take (unat (sz + 5)) fr)) \<noteq> 0"
      unfolding tk .
    have "lgw_usb_rb h e w (Some p) mux address (Some d) sz = Inr (-1, Some d, w2)"
      using lgw_usb_rb_run_failure[OF assms(1,4) f[unfolded fr_def], of h d]
      by (simp only: w2_def fr_def tk[unfolded fr_def])
    with lg2 r show ?thesis by metis
  qed
  from wb rb show ?thesis ..
qed

text \<open>
  Claim C2, as amended. With mux 0, address \<^verbatim>\<open>0x0042\<close> and data \<^verbatim>\<open>0x7F\<close>,
  \<^verbatim>\<open>lgw_usb_w\<close> hands the MCU the frame 0, 0, \<^verbatim>\<open>0x80\<close>, \<^verbatim>\<open>0x42\<close>,
  \<^verbatim>\<open>0x7F\<close>; the read of the same address that follows hands it 0, 0, 0,
  \<^verbatim>\<open>0x42\<close>, 0, 0; and when the relay succeeds with \<^verbatim>\<open>0x7F\<close> in the last
  byte of its reply, the read returns 0 and stores \<^verbatim>\<open>0x7F\<close> for the caller.
\<close>

theorem write_then_read_0x42:
  assumes "load_int w p = Inr fd"
    and "fst (mcu_spi_access e fd [0, 0, 0x00, 0x42, 0, 0]) = 0"
    and "snd (mcu_spi_access e fd [0, 0, 0x00, 0x42, 0, 0]) 5 = 0x7F"
  shows "\<exists>a w1 w2. lgw_usb_w h e w (Some p) 0 0x0042 0x7F = Inr (a, w1)
           \<and> mcu_log w1 = mcu_log w @ [Spi_access fd [0, 0, 0x80, 0x42, 0x7F]]
           \<and> lgw_usb_r h e w1 (Some p) 0 0x0042 (Some old) = Inr (0, Some 0x7F, w2)
           \<and> mcu_log w2 = mcu_log w1 @ [Spi_access fd [0, 0, 0x00, 0x42, 0, 0]]"
proof -
  have hw: "addr_hi_write 0x0042 = 0x80" and hr: "addr_hi_read 0x0042 = 0x00"
    and lo: "addr_lo 0x0042 = 0x42"
    by (simp_all add: addr_hi_write_def addr_hi_read_def addr_lo_def)
  define w1 where "w1 = w\<lparr>mcu_log := mcu_log w @ [Spi_access fd [0, 0, 0x80, 0x42, 0x7F]]\<rparr>"
  have ld: "load_int w1 p = Inr fd"
    using assms(1) by (simp add: w1_def)
  have "\<exists>a. lgw_usb_w h e w (Some p) 0 0x0042 0x7F = Inr (a, w1)"
    using lgw_usb_w_run[OF assms(1), of h e 0 "0x0042" "0x7F"] by (simp add: hw lo w1_def)
  moreover have "lgw_usb_r h e w1 (Some p) 0 0x0042 (Some old) =
      Inr (0, Some 0x7F, w1\<lparr>mcu_log := mcu_log w1 @ [Spi_access fd [0, 0, 0x00, 0x42, 0, 0]]\<rparr>)"
    using lgw_usb_r_run[OF ld, of h e 0 "0x0042" old] assms(2,3) by (simp add: hr lo)
  moreover have "mcu_log w1 = mcu_log w @ [Spi_access fd [0, 0, 0x80, 0x42, 0x7F]]"
    by (simp add: w1_def)
  ultimately show ?thesis by auto
qed

theorem write_then_read_0x42_witness:
  "load_int ready_world 8 = Inr 3
   \<and> fst (mcu_spi_access stub_env 3 [0, 0, 0x00, 0x42, 0, 0]) = 0
   \<and> snd (mcu_spi_access stub_env 3 [0, 0, 0x00, 0x42, 0, 0]) 5 = 0x7F
   \<and> (\<exists>a w1 w2. lgw_usb_w stub_hal stub_env ready_world (Some 8) 0 0x0042 0x7F = Inr (a, w1)
           \<and> mcu_log w1 = mcu_log ready_world @ [Spi_access 3 [0, 0, 0x80, 0x42, 0x7F]]
           \<and> lgw_usb_r stub_hal stub_env w1 (Some 8) 0 0x0042 (Some 0) = Inr (0, Some 0x7F, w2)
           \<and> mcu_log w2 = mcu_log w1 @ [Spi_access 3 [0, 0, 0x00, 0x42, 0, 0]])"
proof -
  have a: "fst (mcu_spi_access stub_env 3 [0, 0, 0x00, 0x42, 0, 0]) = 0"
    and b: "snd (mcu_spi_access stub_env 3 [0, 0, 0x00, 0x42, 0, 0]) 5 = 0x7F"
    by (simp_all add: stub_env_def)
  show ?thesis
    using write_then_read_0x42[OF load_int_ready_world a b, of stub_hal 0]
      load_int_ready_world a b by simp
qed

text \<open>
  The frame of the claim as it was stated, with \<^verbatim>\<open>0xC0\<close> as its third byte, is not
  the frame that the write sends.
\<close>

theorem write_frame_0x42_counterexample:
  "mcu_log (snd (projr (lgw_usb_w stub_hal stub_env ready_world (Some 8) 0 0x0042 0x7F)))
     = [Spi_access 3 [0, 0, 0x80, 0x42, 0x7F]]
   \<and> mcu_log (snd (projr (lgw_usb_w stub_hal stub_env ready_world (Some 8) 0 0x0042 0x7F)))
     \<noteq> [Spi_access 3 [0, 0, 0xC0, 0x42, 0x7F]]"
  by (simp add: lgw_usb_w_def load_int_def spi_access_def ready_world_def stub_world_def
      stub_env_def addr_hi_write_def addr_lo_def Let_def)

section \<open>The temperature sensor\<close>

text \<open>
  Claim C9. Whatever the descriptor and the address, \<^verbatim>\<open>stts751_get_temperature\<close>
  stores the constant 30 in the caller's location and returns
  \<^verbatim>\<open>LGW_I2C_SUCCESS\<close>, and the state is left as it was: nothing is read from or
  written to the bus. \<^verbatim>\<open>stts751_configure\<close> returns the same code and touches
  nothing either.
\<close>

theorem stts751_constant:
  "stts751_get_temperature h w i2c_fd i2c_addr (Some old) = Inr (LGW_I2C_SUCCESS h, Some 30, w)
   \<and> stts751_configure h w i2c_fd i2c_addr = (LGW_I2C_SUCCESS h, w)"
  by (simp add: stts751_get_temperature_def stts751_configure_def)

section \<open>Relay failures\<close>

text \<open>
  Claim C10. When \<^verbatim>\<open>mcu_spi_access\<close> returns a nonzero code for the frame of a
  single read, \<^verbatim>\<open>lgw_usb_r\<close> returns -1 and the caller's byte is as it was;
  when it does so for the frame of a burst read (and \<^verbatim>\<open>buf_req\<close> has room for
  the request), \<^verbatim>\<open>lgw_usb_rb\<close> returns -1 and the caller's array is as it
  was.
\<close>

theorem read_failure_keeps_output:
  assumes "load_int w p = Inr fd"
  shows "(fst (mcu_spi_access e fd [0, mux, addr_hi_read address, addr_lo address, 0, 0]) \<noteq> 0
          \<longrightarrow> (\<exists>w'. lgw_usb_r h e w (Some p) mux address (Some old) = Inr (-1, Some old, w')))
       \<and> (unat sz + 5 \<le> length (buf_req w)
          \<and> fst (mcu_spi_access e fd
                   (take (unat (sz + 5))
                      ([0, mux, addr_hi_read address, addr_lo address, 0] @ replicate (unat sz) 0)))
              \<noteq> 0
          \<longrightarrow> (\<exists>w'. lgw_usb_rb h e w (Some p) mux address (Some d) sz = Inr (-1, Some d, w')))"
proof (intro conjI impI)
  assume "fst (mcu_spi_access e fd [0, mux, addr_hi_read address, addr_lo address, 0, 0]) \<noteq> 0"
  then show "\<exists>w'. lgw_usb_r h e w (Some p) mux address (Some old) = Inr (-1, Some old, w')"
    using lgw_usb_r_run[OF assms, of h e mux address old] by simp
next
  assume "unat sz + 5 \<le> length (buf_req w)
          \<and> fst (mcu_spi_access e fd
                   (take (unat (sz + 5))
                      ([0, mux, addr_hi_read address, addr_lo address, 0] @ replicate (unat sz) 0)))
              \<noteq> 0"
  then show "\<exists>w'. lgw_usb_rb h e w (Some p) mux address (Some d) sz = Inr (-1, Some d, w')"
    using lgw_usb_rb_run_failure[OF assms, of sz e mux address h d] by blast
qed

theorem read_failure_keeps_output_witness:
  "load_int ready_world 8 = Inr 3
   \<and> fst (mcu_spi_access failing_relay_env 3 [0, 1, addr_hi_read 0x5601, addr_lo 0x5601, 0, 0]) \<noteq> 0
   \<and> (\<exists>w'. lgw_usb_r stub_hal failing_relay_env ready_world (Some 8) 1 0x5601 (Some 0xAA)
               = Inr (-1, Some 0xAA, w'))
   \<and> unat (2 :: uint16_t) + 5 \<le> length (buf_req ready_world)
   \<and> fst (mcu_spi_access failing_relay_env 3
            (take (unat (2 + 5 :: uint16_t))
               ([0, 1, addr_hi_read 0x5601, addr_lo 0x5601, 0] @ replicate (unat (2 :: uint16_t)) 0)))
        \<noteq> 0
   \<and> (\<exists>w'. lgw_usb_rb stub_hal failing_relay_env ready_world (Some 8) 1 0x5601
                 (Some [0xAA, 0xBB]) 2 = Inr (-1, Some [0xAA, 0xBB], w'))"
proof -
  have cap: "unat (2 :: uint16_t) + 5 \<le> length (buf_req ready_world)"
    by (simp add: ready_world_def stub_world_def)
  have fails: "\<And>f. fst (mcu_spi_access failing_relay_env 3 f) \<noteq> 0"
    by (simp add: failing_relay_env_def)
  show ?thesis
    using read_failure_keeps_output[OF load_int_ready_world,
        of failing_relay_env 1 "0x5601" stub_hal "0xAA" 2 "[0xAA, 0xBB]"]
      load_int_ready_world cap fails by blast
qed

section \<open>Burst lengths\<close>

text \<open>
  The length handed to the MCU is \<^verbatim>\<open>command_size\<close>, a \<^verbatim>\<open>uint16_t\<close>: it is
  the burst size plus 4 (plus 5 for a read) as long as that stays below 65536.
\<close>

lemma burst_write_frame_length:
  assumes "load_int w p = Inr fd"
    and "unat sz \<le> length d"
    and "unat sz + 4 \<le> length (buf_req w)"
  shows "\<exists>a w' frame. lgw_usb_wb h e w (Some p) mux address (Some d) sz = Inr (a, w')
           \<and> mcu_log w' = mcu_log w @ [Spi_access fd frame]
           \<and> length frame = unat (sz + 4)
           \<and> (unat sz + 4 < 2 ^ 16 \<longrightarrow> length frame = unat sz + 4)"
proof -
  define frame where "frame = take (unat (sz + 4))
                  ([0, mux, addr_hi_write address, addr_lo address] @ take (unat sz) d)"
  define w' where "w' = w\<lparr>buf_req := [0, mux, addr_hi_write address, addr_lo address]
                            @ take (unat sz) d @ drop (unat sz + 4) (buf_req w),
                          mcu_log := mcu_log w @ [Spi_access fd frame]\<rparr>"
  have run: "lgw_usb_wb h e w (Some p) mux address (Some d) sz
               = Inr (if fst (mcu_spi_access e fd frame) \<noteq> 0 then -1 else 0, w')"
    unfolding frame_def w'_def by (rule lgw_usb_wb_run[OF assms])
  have lg: "mcu_log w' = mcu_log w @ [Spi_access fd frame]"
    by (simp add: w'_def)
  have le: "unat (sz + 4) \<le> unat sz + 4"
    using unat_add_le_u16[of sz 4] by simp
  then have len: "length frame = unat (sz + 4)"
    using assms(2) by (simp add: frame_def)
  have small: "unat sz + 4 < 2 ^ 16 \<longrightarrow> unat (sz + 4) = unat sz + 4"
    by (simp add: unat_word_ariths)
  from run lg len small show ?thesis
    by metis
qed

lemma burst_read_frame_length:
  assumes "load_int w p = Inr fd"
    and "unat sz \<le> length d"
    and "unat sz + 5 \<le> length (buf_req w)"
    and "unat sz + 5 < 2 ^ 16"
  shows "\<exists>a out w' frame. lgw_usb_rb h e w (Some p) mux address (Some d) sz = Inr (a, out, w')
           \<and> mcu_log w' = mcu_log w @ [Spi_access fd frame]
           \<and> length frame = unat sz + 5"
proof -
  define frame where
    "frame = [0, mux, addr_hi_read address, addr_lo address, 0] @ replicate (unat sz) 0"
  define w' where "w' = w\<lparr>buf_req := [0, mux, addr_hi_read address, addr_lo address, 0]
                            @ replicate (unat sz) 0 @ drop (unat sz + 5) (buf_req w),
                          mcu_log := mcu_log w @ [Spi_access fd frame]\<rparr>"
  have u: "unat (sz + 5) = unat sz + 5"
    using assms(4) by (simp add: unat_word_ariths)
  have tk: "take (unat (sz + 5)) frame = frame"
    by (simp add: u frame_def)
  have lg: "mcu_log w' = mcu_log w @ [Spi_access fd frame]"
    by (simp add: w'_def)
  have len: "length frame = unat sz + 5"
    by (simp add: frame_def)
  show ?thesis
  proof (cases "fst (mcu_spi_access e fd frame) = 0")
    case True
    have "lgw_usb_rb h e w (Some p) mux address (Some d) sz
            = Inr (0, Some (map (snd (mcu_spi_access e fd frame)) [5 ..< 5 + unat sz]
                              @ drop (unat sz) d), w')"
      unfolding frame_def w'_def
      by (rule lgw_usb_rb_run_success[OF assms(1,3,2,4) True[unfolded frame_def]])
    with lg len show ?thesis by metis
  next
    case False
    then have f: "fst (mcu_spi_access e fd (take (unat (sz + 5)) frame)) \<noteq> 0"
      unfolding tk .
    have "lgw_usb_rb h e w (Some p) mux address (Some d) sz = Inr (-1, Some d, w')"
      using lgw_usb_rb_run_failure[OF assms(1,3) f[unfolded frame_def], of h d]
      by (simp only: w'_def frame_def tk[unfolded frame_def])
    with lg len show ?thesis by metis
  qed
qed

text \<open>
  Claim C3 at the burst size 65535: \<^verbatim>\<open>command_size\<close> wraps around, and the MCU
  is handed 3 bytes by the burst write and 4 bytes by the burst read, where the claim
  has 65539 and 65540.
\<close>

theorem burst_length_wraps:
  "mcu_log (snd (projr (lgw_usb_wb stub_hal stub_env ready_world (Some 8) 0 0
                          (Some (replicate 65535 0)) 0xFFFF)))
     = [Spi_access 3 [0, 0, 0x80]]
   \<and> mcu_log (snd (snd (projr (lgw_usb_rb stub_hal failing_relay_env ready_world (Some 8) 0 0
                          (Some (replicate 65535 0)) 0xFFFF))))
     = [Spi_access 3 [0, 0, 0x00, 0x00]]"
proof -
  have cap4: "unat (0xFFFF :: uint16_t) + 4 \<le> length (buf_req ready_world)"
    and cap5: "unat (0xFFFF :: uint16_t) + 5 \<le> length (buf_req ready_world)"
    by (simp_all add: ready_world_def stub_world_def)
  have d: "unat (0xFFFF :: uint16_t) \<le> length (replicate 65535 (0 :: uint8_t))"
    by simp
  have lg: "mcu_log ready_world = []"
    by (simp add: ready_world_def stub_world_def)
  have hw: "addr_hi_write 0 = 0x80" and hr: "addr_hi_read 0 = 0" and lo: "addr_lo 0 = 0"
    by (simp_all add: addr_hi_write_def addr_hi_read_def addr_lo_def)
  have fails: "\<And>f. fst (mcu_spi_access failing_relay_env 3 f) \<noteq> 0"
    by (simp add: failing_relay_env_def)
  have w: "mcu_log (snd (projr (lgw_usb_wb stub_hal stub_env ready_world (Some 8) 0 0
                          (Some (replicate 65535 0)) 0xFFFF))) = [Spi_access 3 [0, 0, 0x80]]"
    by (simp add: lgw_usb_wb_run[OF load_int_ready_world d cap4] lg hw lo)
  have r: "mcu_log (snd (snd (projr (lgw_usb_rb stub_hal failing_relay_env ready_world (Some 8) 0 0
                          (Some (replicate 65535 0)) 0xFFFF)))) = [Spi_access 3 [0, 0, 0, 0]]"
    by (simp add: lgw_usb_rb_run_failure[OF load_int_ready_world cap5 fails] lg hr lo)
  from w r show ?thesis by simp
qed

section \<open>The blocking mode\<close>

lemma VMIN_neq_VTIME: "VMIN \<noteq> VTIME"
  by (simp add: VMIN_def VTIME_def)

lemma set_blocking_linux_run:
  assumes "ttys w fd = Some t"
  shows "set_blocking_linux h e w fd blocking =
     (if tcsetattr_result e fd
           (t\<lparr>c_cc := (c_cc t)(VMIN := (if blocking then 1 else 0), VTIME := 1)\<rparr>) = 0
      then (LGW_USB_SUCCESS h,
            w\<lparr>ttys := (ttys w)(fd \<mapsto>
                 t\<lparr>c_cc := (c_cc t)(VMIN := (if blocking then 1 else 0), VTIME := 1)\<rparr>)\<rparr>)
      else (LGW_USB_ERROR h, w))"
  using assms by (simp add: set_blocking_linux_def tcgetattr_def tcsetattr_def Let_def)

lemma set_blocking_linux_no_terminal:
  assumes "ttys w fd = None"
  shows "set_blocking_linux h e w fd blocking = (LGW_USB_ERROR h, w)"
  using assms by (simp add: set_blocking_linux_def tcgetattr_def)

text \<open>
  Claim C8. On a terminal, \<^verbatim>\<open>set_blocking_linux\<close> asks \<^verbatim>\<open>tcsetattr\<close> for the
  current attributes with \<^verbatim>\<open>c_cc[VMIN]\<close> set to 1 (blocking) or 0 (not blocking)
  and \<^verbatim>\<open>c_cc[VTIME]\<close> set to 1: every other control character, the four flag
  words, the line discipline and the two speeds are the current ones. When
  \<^verbatim>\<open>tcsetattr\<close> returns 0 these become the attributes of the descriptor and nothing
  else changes; otherwise nothing changes at all.
\<close>

theorem set_blocking_linux_frame:
  assumes "ttys w fd = Some t"
  shows "\<exists>t'. set_blocking_linux h e w fd blocking =
            (if tcsetattr_result e fd t' = 0
             then (LGW_USB_SUCCESS h, w\<lparr>ttys := (ttys w)(fd \<mapsto> t')\<rparr>)
             else (LGW_USB_ERROR h, w))
          \<and> c_cc t' VMIN = (if blocking then 1 else 0)
          \<and> c_cc t' VTIME = 1
          \<and> (\<forall>i. i \<noteq> VMIN \<and> i \<noteq> VTIME \<longrightarrow> c_cc t' i = c_cc t i)
          \<and> c_iflag t' = c_iflag t \<and> c_oflag t' = c_oflag t
          \<and> c_cflag t' = c_cflag t \<and> c_lflag t' = c_lflag t
          \<and> c_line t' = c_line t
          \<and> c_ispeed t' = c_ispeed t \<and> c_ospeed t' = c_ospeed t"
proof -
  let ?t' = "t\<lparr>c_cc := (c_cc t)(VMIN := (if blocking then 1 else 0), VTIME := 1)\<rparr>"
  have "c_cc ?t' VMIN = (if blocking then 1 else 0)"
    using VMIN_neq_VTIME by simp
  moreover have "c_cc ?t' VTIME = 1"
    by simp
  moreover have "\<forall>i. i \<noteq> VMIN \<and> i \<noteq> VTIME \<longrightarrow> c_cc ?t' i = c_cc t i"
    by simp
  ultimately show ?thesis
    using set_blocking_linux_run[OF assms, of h e blocking]
    by (intro exI[of _ ?t']) simp
qed

theorem set_blocking_linux_frame_witness:
  "ttys stub_world 3 = Some termios_zero
   \<and> (\<exists>t'. set_blocking_linux stub_hal stub_env stub_world 3 True =
            (if tcsetattr_result stub_env 3 t' = 0
             then (LGW_USB_SUCCESS stub_hal, stub_world\<lparr>ttys := (ttys stub_world)(3 \<mapsto> t')\<rparr>)
             else (LGW_USB_ERROR stub_hal, stub_world))
          \<and> c_cc t' VMIN = 1
          \<and> c_cc t' VTIME = 1
          \<and> (\<forall>i. i \<noteq> VMIN \<and> i \<noteq> VTIME \<longrightarrow> c_cc t' i = c_cc termios_zero i)
          \<and> c_iflag t' = c_iflag termios_zero \<and> c_oflag t' = c_oflag termios_zero
          \<and> c_cflag t' = c_cflag termios_zero \<and> c_lflag t' = c_lflag termios_zero
          \<and> c_line t' = c_line termios_zero
          \<and> c_ispeed t' = c_ispeed termios_zero \<and> c_ospeed t' = c_ospeed termios_zero)"
proof -
  have t: "ttys stub_world 3 = Some termios_zero"
    by (simp add: stub_world_def)
  show ?thesis
    using set_blocking_linux_frame[OF t, of stub_hal stub_env True] t by simp
qed

section \<open>Closing a session\<close>

lemma lgw_usb_close_run:
  assumes "load_int w p = Inr fd"
  shows "lgw_usb_close h e w (Some p) =
     Inr (if os_close e fd < 0 then LGW_USB_ERROR h else LGW_USB_SUCCESS h,
          free p (if os_close e fd = 0 then w\<lparr>fds := fds w - {fd}\<rparr> else w))"
  using assms by (simp add: lgw_usb_close_def Let_def)

text \<open>
  Claim C7, as amended. For a valid handle, \<^verbatim>\<open>lgw_usb_close\<close> frees the handle
  whatever \<^verbatim>\<open>close\<close> returns; it returns \<^verbatim>\<open>LGW_USB_ERROR\<close> when
  \<^verbatim>\<open>close\<close> returns a negative value and \<^verbatim>\<open>LGW_USB_SUCCESS\<close> otherwise.
\<close>

theorem lgw_usb_close_releases:
  assumes "load_int w p = Inr fd"
  shows "\<exists>w'. lgw_usb_close h e w (Some p) =
            Inr (if os_close e fd < 0 then LGW_USB_ERROR h else LGW_USB_SUCCESS h, w')
          \<and> heap w' p = None"
  using lgw_usb_close_run[OF assms, of h e] by (simp add: free_def)

theorem lgw_usb_close_releases_witness:
  "load_int ready_world 8 = Inr 3
   \<and> (\<exists>w'. lgw_usb_close stub_hal close_fails_env ready_world (Some 8) = Inr (-1, w')
          \<and> heap w' 8 = None)"
  using lgw_usb_close_releases[OF load_int_ready_world, of stub_hal close_fails_env]
    load_int_ready_world
  by (simp add: close_fails_env_def stub_hal_def)

text \<open>
  When \<^verbatim>\<open>close\<close> fails, the caller is not told of a success: with the return codes
  0 and -1, \<^verbatim>\<open>lgw_usb_close\<close> returns -1.
\<close>

theorem lgw_usb_close_failure_counterexample:
  "fst (projr (lgw_usb_close stub_hal close_fails_env ready_world (Some 8))) = LGW_USB_ERROR stub_hal
   \<and> fst (projr (lgw_usb_close stub_hal close_fails_env ready_world (Some 8)))
       \<noteq> LGW_USB_SUCCESS stub_hal"
  by (simp add: lgw_usb_close_def load_int_def ready_world_def stub_world_def
      close_fails_env_def stub_hal_def Let_def)

section \<open>The version check\<close>

text \<open>
  On strings without an embedded NUL, and with a count that covers the expected string
  and its terminator, \<^verbatim>\<open>strncmp\<close> returns 0 exactly for equal strings: the
  check of line 173 fails exactly when the version received, without its first
  character, differs from the expected one.
\<close>

lemma of_char_eq_0_iff: "of_char c = (0 :: int) \<longleftrightarrow> c = CHR 0x00"
proof -
  have "of_char (CHR 0x00) = (0 :: int)" by simp
  then have "of_char c = (0 :: int) \<longleftrightarrow> of_char c = (of_char (CHR 0x00) :: int)" by simp
  then show ?thesis by (simp only: of_char_eq_iff)
qed

lemma c_char_at_eq_0_iff: "CHR 0x00 \<notin> set s \<Longrightarrow> c_char_at s = 0 \<longleftrightarrow> s = []"
  by (cases s) (auto simp: c_char_at_def of_char_eq_0_iff)

lemma strncmp_eq_0_iff:
  assumes "CHR 0x00 \<notin> set s1" and "CHR 0x00 \<notin> set s2" and "length s2 < n"
  shows "strncmp s1 s2 n = 0 \<longleftrightarrow> s1 = s2"
  using assms
proof (induction n arbitrary: s1 s2)
  case 0
  then show ?case by simp
next
  case (Suc n)
  show ?case
  proof (cases s1)
    case Nil
    with Suc.prems show ?thesis
      by (cases s2) (auto simp: c_char_at_def of_char_eq_0_iff)
  next
    case (Cons c cs)
    note s1 = this
    show ?thesis
    proof (cases s2)
      case Nil
      with s1 Suc.prems show ?thesis
        by (auto simp: c_char_at_def of_char_eq_0_iff)
    next
      case (Cons d ds)
      have "strncmp cs ds n = 0 \<longleftrightarrow> cs = ds"
        using Suc.prems s1 Cons by (intro Suc.IH) auto
      with s1 Cons Suc.prems show ?thesis
        by (auto simp: c_char_at_def of_char_eq_0_iff)
    qed
  qed
qed

section \<open>Opening a session\<close>

text \<open>
  Configuring the port neither reads nor writes the heap, the set of open descriptors or
  the log of MCU calls.
\<close>

lemma set_interface_attribs_linux_indep:
  "set_interface_attribs_linux h e (w\<lparr>heap := H, fds := F\<rparr>) fd speed =
     (fst (set_interface_attribs_linux h e w fd speed),
      (snd (set_interface_attribs_linux h e w fd speed))\<lparr>heap := H, fds := F\<rparr>)"
  by (simp add: set_interface_attribs_linux_def tcgetattr_def tcsetattr_def Let_def
      split: option.splits)

lemma set_blocking_linux_indep:
  "set_blocking_linux h e (w\<lparr>heap := H, fds := F\<rparr>) fd blocking =
     (fst (set_blocking_linux h e w fd blocking),
      (snd (set_blocking_linux h e w fd blocking))\<lparr>heap := H, fds := F\<rparr>)"
  by (simp add: set_blocking_linux_def tcgetattr_def tcsetattr_def Let_def
      split: option.splits)

lemma configure_port_indep:
  "configure_port h e (w\<lparr>heap := H, fds := F\<rparr>) fd =
     (fst (configure_port h e w fd), (snd (configure_port h e w fd))\<lparr>heap := H, fds := F\<rparr>)"
  by (simp add: configure_port_def set_interface_attribs_linux_indep set_blocking_linux_indep
      split_def)

lemma set_interface_attribs_linux_log:
  "mcu_log (snd (set_interface_attribs_linux h e w fd speed)) = mcu_log w"
  by (simp add: set_interface_attribs_linux_def tcgetattr_def tcsetattr_def Let_def
      split: option.splits)

lemma set_blocking_linux_log:
  "mcu_log (snd (set_blocking_linux h e w fd blocking)) = mcu_log w"
  by (simp add: set_blocking_linux_def tcgetattr_def tcsetattr_def Let_def
      split: option.splits)

lemma configure_port_log: "mcu_log (snd (configure_port h e w fd)) = mcu_log w"
  by (simp add: configure_port_def split_def set_interface_attribs_linux_log
      set_blocking_linux_log)

text \<open>
  Once the path fits, the handle is allocated, the port is open and configured,
  \<^verbatim>\<open>lgw_usb_open\<close> stores the descriptor in the handle, publishes the handle,
  seeds the generator and starts the handshake.
\<close>

lemma lgw_usb_open_handshake:
  assumes "length com_path < 50"
    and "malloc_result e = Some p"
    and "os_open e com_path = fd" and "0 \<le> fd"
    and "fst (configure_port h e w fd) = 0"
  shows "lgw_usb_open h e w com_path (Some c) =
     (case ping e ((snd (configure_port h e w fd))
                      \<lparr>fds := insert fd (fds w), heap := (heap w)(p \<mapsto> Some fd),
                        rand_seed := Some 0\<rparr>) fd of
        (rc, version, w7) \<Rightarrow>
          if rc \<noteq> 0 then Inr (LGW_USB_ERROR h, Some (Some p), w7)
          else if strncmp (drop 1 version) (mcu_version_string h)
                    (sizeof_mcu_version_string h) \<noteq> 0
          then Inr (-1, Some (Some p), w7)
          else
            case gpio_write e w7 fd 0 1 1 of
              (g1, w8) \<Rightarrow>
            case gpio_write e w8 fd 0 2 1 of
              (g2, w9) \<Rightarrow>
            case gpio_write e w9 fd 0 2 0 of
              (g3, w10) \<Rightarrow>
            if (g1 OR g2) OR g3 \<noteq> 0
            then Inr (LGW_USB_ERROR h, Some (Some p), free p w10)
            else Inr (LGW_USB_SUCCESS h, Some (Some p), w10))"
  using assms
  by (simp add: lgw_usb_open_def configure_port_indep store_int_def Let_def)

lemma or3_eq_0_iff: "((g1 OR g2) OR g3 = 0) = (g1 = 0 \<and> g2 = 0 \<and> g3 = 0)" for g1 g2 g3 :: int
  by (simp add: or_eq_0_iff)

text \<open>
  Claim C1, as amended. Whenever the handshake is reached and fails,
  \<^verbatim>\<open>lgw_usb_open\<close> returns an error, \<^verbatim>\<open>LGW_USB_ERROR\<close> when
  \<^verbatim>\<open>mcu_ping\<close> fails and -1 when the version differs; the descriptor it opened
  is still open when it returns, and no GPIO call has been made.
\<close>

theorem open_handshake_failure:
  assumes "length com_path < 50"
    and "malloc_result e = Some p"
    and "os_open e com_path = fd" and "0 \<le> fd"
    and "fst (configure_port h e w fd) = 0"
    and "fst (mcu_ping e fd) \<noteq> 0
         \<or> strncmp (drop 1 (snd (mcu_ping e fd))) (mcu_version_string h)
               (sizeof_mcu_version_string h) \<noteq> 0"
  shows "\<exists>w'. lgw_usb_open h e w com_path (Some c) =
            Inr (if fst (mcu_ping e fd) \<noteq> 0 then LGW_USB_ERROR h else -1, Some (Some p), w')
          \<and> fd \<in> fds w'
          \<and> mcu_log w' = mcu_log w @ [Ping fd]"
  using assms(6)
  by (auto simp add: lgw_usb_open_handshake[OF assms(1-5)] ping_def configure_port_log)

text \<open>
  Claim C6, as amended. Once the handshake has passed, \<^verbatim>\<open>lgw_usb_open\<close> makes
  exactly three GPIO calls, in this order: pin 1 of bank 0 to 1 (power enable), pin 2 to 1
  (reset asserted), pin 2 to 0 (reset released). All three are made whatever they
  return. If all return 0 the open succeeds and the handle holds the descriptor;
  otherwise the open returns \<^verbatim>\<open>LGW_USB_ERROR\<close> and the handle has been freed.
\<close>

theorem open_reset_sequence:
  assumes "length com_path < 50"
    and "malloc_result e = Some p"
    and "os_open e com_path = fd" and "0 \<le> fd"
    and "fst (configure_port h e w fd) = 0"
    and "fst (mcu_ping e fd) = 0"
    and "strncmp (drop 1 (snd (mcu_ping e fd))) (mcu_version_string h)
           (sizeof_mcu_version_string h) = 0"
  shows "\<exists>r w'. lgw_usb_open h e w com_path (Some c) = Inr (r, Some (Some p), w')
          \<and> mcu_log w' = mcu_log w @
                [Ping fd, Gpio_write fd 0 1 1, Gpio_write fd 0 2 1, Gpio_write fd 0 2 0]
          \<and> (if mcu_gpio_write e fd 0 1 1 = 0 \<and> mcu_gpio_write e fd 0 2 1 = 0
                 \<and> mcu_gpio_write e fd 0 2 0 = 0
              then r = LGW_USB_SUCCESS h \<and> heap w' p = Some (Some fd)
              else r = LGW_USB_ERROR h \<and> heap w' p = None)"
  using assms(6,7)
  by (auto simp add: lgw_usb_open_handshake[OF assms(1-5)] ping_def gpio_write_def
      configure_port_log or3_eq_0_iff free_def)

text \<open>The test bench: the port is configured, and the two version strings compared.\<close>

lemma configure_port_succeeds:
  assumes "ttys w fd = Some t"
    and "\<And>a. tcsetattr_result e fd a = 0"
    and "LGW_USB_SUCCESS h = 0"
  shows "fst (configure_port h e w fd) = 0"
  using assms
  by (simp add: configure_port_def set_interface_attribs_linux_def set_blocking_linux_def
      tcgetattr_def tcsetattr_def Let_def)

lemma stub_port_configured:
  "fst (configure_port stub_hal stub_env stub_world 3) = 0"
  "fst (configure_port stub_hal mismatch_env stub_world 3) = 0"
  "fst (configure_port stub_hal gpio_fails_env stub_world 3) = 0"
  by (rule configure_port_succeeds[of _ _ termios_zero];
      simp add: stub_world_def stub_env_def mismatch_env_def gpio_fails_env_def stub_hal_def)+

lemma version_checks:
  "strncmp (drop 1 ''R01.00.00'') ''01.00.00'' 9 = 0"
  "strncmp (drop 1 ''R00.02.06'') ''01.00.00'' 9 \<noteq> 0"
  by (simp_all add: eval_nat_numeral c_char_at_def)

theorem open_handshake_failure_witness:
  "length ''/dev/ttyACM0'' < 50
   \<and> malloc_result mismatch_env = Some 8
   \<and> os_open mismatch_env ''/dev/ttyACM0'' = 3 \<and> (0 :: int) \<le> 3
   \<and> fst (configure_port stub_hal mismatch_env stub_world 3) = 0
   \<and> fst (mcu_ping mismatch_env 3) = 0
   \<and> strncmp (drop 1 (snd (mcu_ping mismatch_env 3))) (mcu_version_string stub_hal)
         (sizeof_mcu_version_string stub_hal) \<noteq> 0
   \<and> (\<exists>w'. lgw_usb_open stub_hal mismatch_env stub_world ''/dev/ttyACM0'' (Some None) =
            Inr (-1, Some (Some 8), w')
          \<and> 3 \<in> fds w'
          \<and> mcu_log w' = mcu_log stub_world @ [Ping 3])"
proof -
  have a: "length ''/dev/ttyACM0'' < 50" by simp
  have b: "malloc_result mismatch_env = Some 8"
    and c: "os_open mismatch_env ''/dev/ttyACM0'' = 3"
    and p: "fst (mcu_ping mismatch_env 3) = 0"
    by (simp_all add: mismatch_env_def stub_env_def)
  have d: "(0 :: int) \<le> 3" by simp
  have v: "strncmp (drop 1 (snd (mcu_ping mismatch_env 3))) (mcu_version_string stub_hal)
              (sizeof_mcu_version_string stub_hal) \<noteq> 0"
    using version_checks(2) by (simp add: mismatch_env_def stub_env_def stub_hal_def)
  then have f: "fst (mcu_ping mismatch_env 3) \<noteq> 0
        \<or> strncmp (drop 1 (snd (mcu_ping mismatch_env 3))) (mcu_version_string stub_hal)
              (sizeof_mcu_version_string stub_hal) \<noteq> 0" ..
  show ?thesis
    using open_handshake_failure[OF a b c d stub_port_configured(2) f, of None]
      a b c d stub_port_configured(2) v p by simp
qed

text \<open>
  With a firmware version other than the expected one, the open returns -1, the handle
  is still allocated and descriptor 3 is still open.
\<close>

theorem open_handshake_failure_counterexample:
  "fst (projr (lgw_usb_open stub_hal mismatch_env stub_world ''/dev/ttyACM0'' (Some None))) = -1
   \<and> heap (snd (snd (projr
        (lgw_usb_open stub_hal mismatch_env stub_world ''/dev/ttyACM0'' (Some None))))) 8
       = Some (Some 3)
   \<and> 3 \<in> fds (snd (snd (projr
        (lgw_usb_open stub_hal mismatch_env stub_world ''/dev/ttyACM0'' (Some None)))))"
proof -
  have a: "length ''/dev/ttyACM0'' < 50" by simp
  have b: "malloc_result mismatch_env = Some 8"
    and c: "os_open mismatch_env ''/dev/ttyACM0'' = 3"
    and p: "mcu_ping mismatch_env 3 = (0, ''R00.02.06'')"
    by (simp_all add: mismatch_env_def stub_env_def)
  have d: "(0 :: int) \<le> 3" by simp
  have s: "mcu_version_string stub_hal = ''01.00.00''" "sizeof_mcu_version_string stub_hal = 9"
    by (simp_all add: stub_hal_def)
  show ?thesis
    unfolding lgw_usb_open_handshake[OF a b c d stub_port_configured(2), of None]
    using version_checks(2) by (simp add: ping_def p s del: strncmp.simps)
qed

theorem open_reset_sequence_witness:
  "length ''/dev/ttyACM0'' < 50
   \<and> malloc_result gpio_fails_env = Some 8
   \<and> os_open gpio_fails_env ''/dev/ttyACM0'' = 3 \<and> (0 :: int) \<le> 3
   \<and> fst (configure_port stub_hal gpio_fails_env stub_world 3) = 0
   \<and> fst (mcu_ping gpio_fails_env 3) = 0
   \<and> strncmp (drop 1 (snd (mcu_ping gpio_fails_env 3))) (mcu_version_string stub_hal)
              (sizeof_mcu_version_string stub_hal) = 0
   \<and> (\<exists>r w'. lgw_usb_open stub_hal gpio_fails_env stub_world ''/dev/ttyACM0'' (Some None) =
            Inr (r, Some (Some 8), w')
          \<and> mcu_log w' = mcu_log stub_world @
                [Ping 3, Gpio_write 3 0 1 1, Gpio_write 3 0 2 1, Gpio_write 3 0 2 0]
          \<and> r = LGW_USB_ERROR stub_hal \<and> heap w' 8 = None)"
proof -
  have a: "length ''/dev/ttyACM0'' < 50" by simp
  have b: "malloc_result gpio_fails_env = Some 8"
    and c: "os_open gpio_fails_env ''/dev/ttyACM0'' = 3"
    and p: "fst (mcu_ping gpio_fails_env 3) = 0"
    and g: "mcu_gpio_write gpio_fails_env 3 0 2 0 \<noteq> 0"
    by (simp_all add: gpio_fails_env_def stub_env_def)
  have d: "(0 :: int) \<le> 3" by simp
  have v: "strncmp (drop 1 (snd (mcu_ping gpio_fails_env 3))) (mcu_version_string stub_hal)
              (sizeof_mcu_version_string stub_hal) = 0"
    using version_checks(1) by (simp add: gpio_fails_env_def stub_env_def stub_hal_def)
  show ?thesis
    using open_reset_sequence[OF a b c d stub_port_configured(3) p v, of None]
      a b c d stub_port_configured(3) p v g by auto
qed

text \<open>A successful open makes three GPIO calls, not two.\<close>

theorem open_reset_three_gpio_counterexample:
  "gpio_calls (mcu_log (snd (snd (projr
      (lgw_usb_open stub_hal stub_env stub_world ''/dev/ttyACM0'' (Some None))))))
     = [Gpio_write 3 0 1 1, Gpio_write 3 0 2 1, Gpio_write 3 0 2 0]
   \<and> length (gpio_calls (mcu_log (snd (snd (projr
      (lgw_usb_open stub_hal stub_env stub_world ''/dev/ttyACM0'' (Some None)))))))
     \<noteq> 2"
proof -
  have a: "length ''/dev/ttyACM0'' < 50" by simp
  have b: "malloc_result stub_env = Some 8"
    and c: "os_open stub_env ''/dev/ttyACM0'' = 3"
    and p: "mcu_ping stub_env 3 = (0, ''R01.00.00'')"
    and g: "\<And>bank pin level. mcu_gpio_write stub_env 3 bank pin level = 0"
    by (simp_all add: stub_env_def)
  have d: "(0 :: int) \<le> 3" by simp
  have s: "mcu_version_string stub_hal = ''01.00.00''" "sizeof_mcu_version_string stub_hal = 9"
    by (simp_all add: stub_hal_def)
  have l: "mcu_log stub_world = []"
    by (simp add: stub_world_def)
  show ?thesis
    unfolding lgw_usb_open_handshake[OF a b c d stub_port_configured(1), of None]
    using version_checks(1)
    by (simp add: ping_def gpio_write_def p s g l configure_port_log gpio_calls_def
        del: strncmp.simps)
qed

end
